theory Spec2Isabelle
  imports Main
begin

section \<open>Data model of \<open>graphlearn/python/nn/tf/data/dataset.py\<close>\<close>

text \<open>
  The module converts the results of a GSL query into flat tuples of tensors and back.
  Everything it imports from other modules (the query DAG, the decoders, the raw
  dataset, the batch graph classes) is kept as data or as a parameter here; the
  functions of class \<open>Dataset\<close> are embedded one by one, with every \<open>raise\<close> as a
  value of type \<open>error\<close>.
\<close>

subsection \<open>Errors\<close>

text \<open>The four places where the module raises \<open>ValueError\<close>, and the other
  exceptions a call can end with. \<open>NodeNotFound\<close> stands for the outcome of
  \<open>self._dag.get_node(alias)\<close> on an alias the query does not have; the query class
  decides what that is, not this module, and no property below is about it.\<close>

datatype value_error =
    NeighborsNotList
  | NotDownstream string string
  | MultipleDownstreams string string
  | BadBatchAlias

datatype error =
    ValueError value_error
  | IndexError
  | KeyError string
  | AttributeError string
  | TypeError
  | NodeNotFound string

definition ebind :: "error + 'a \<Rightarrow> ('a \<Rightarrow> error + 'b) \<Rightarrow> error + 'b" where
  "ebind m f = (case m of Inl e \<Rightarrow> Inl e | Inr x \<Rightarrow> f x)"

subsection \<open>Tensor types and shapes\<close>

text \<open>\<open>tf.int32\<close>, \<open>tf.int64\<close>, \<open>tf.float32\<close>, \<open>tf.string\<close>, and any other dtype a caller
  names in \<open>induce_additional_spec\<close>. A \<open>tf.TensorShape\<close> is its list of dimensions,
  \<open>None\<close> being an unbound one.\<close>

datatype dtype = TF_int32 | TF_int64 | TF_float32 | TF_string | TF_other string

type_synonym tensor_shape = "nat option list"

datatype tensor = Tensor nat

subsection \<open>Decoders and the query DAG\<close>

text \<open>The decoder class belongs to another module. This module reads the three
  attribute counts and \<open>feature_spec\<close> and hands the decoder to \<open>get_mask\<close>;
  \<open>labeled\<close> and \<open>weighted\<close> are there for \<open>get_mask\<close> to look at.\<close>

record decoder =
  int_attr_num :: nat
  float_attr_num :: nat
  string_attr_num :: nat
  labeled :: bool
  weighted :: bool
  feature_spec :: string

text \<open>A node of the query DAG. \<open>is_traverse_edge\<close> is
  \<open>isinstance(node, TraverseEdgeDagNode)\<close>. The downstream lists hold the downstream
  nodes themselves, as the Python lists do; a DAG has no cycle, so a node is a finite
  tree of its downstreams.\<close>

datatype dag_node = DagNode
  (get_alias: string)
  (dn_type: string)
  (dn_decoder: decoder)
  (is_traverse_edge: bool)
  (dn_sparse: bool)
  (dn_shape: "nat list")
  (pos_downstreams: "dag_node list")
  (neg_downstreams: "dag_node list")

record dag =
  get_node :: "string \<Rightarrow> dag_node option"
  dag_node_types :: "string list"
  dag_edge_types :: "string list"
  list_alias :: "string list"
  graph_get_node_decoder :: "string \<Rightarrow> decoder"

text \<open>\<open>SubKeys\<close> is imported from \<open>graphlearn.python.nn.dataset\<close>; the three keys the
  module reads are parameters.\<close>

record sub_keys =
  POS_SRC :: string
  POS_DST :: string
  NEG_DST :: string

text \<open>A \<open>Data\<close> object of the data dict, as \<open>build_data_dict\<close> makes it from the flat
  values.\<close>

datatype data = Data "tensor list"

text \<open>What the module uses of \<open>RawDataset\<close> at declaration and reconstruction time:
  the keys of \<open>masks\<close> in their enumeration order, \<open>get_mask\<close> and
  \<open>build_data_dict\<close>.\<close>

record raw_dataset =
  masks_keys :: "string list"
  get_mask :: "decoder \<Rightarrow> bool \<Rightarrow> bool \<Rightarrow> bool list \<times> bool list \<times> bool list"
  build_data_dict :: "tensor list \<Rightarrow> string \<Rightarrow> data option"

subsection \<open>The \<open>Dataset\<close> object\<close>

text \<open>\<open>induce_additional_spec\<close> is a dict from a name to the list
  \<open>[type, shape]\<close>; it is kept as an association list in the order \<open>keys()\<close>
  enumerates it. \<open>pos_size\<close> is \<open>None\<close> until
  \<open>_batchgraph_flatten_types_and_shapes\<close> assigns it.\<close>

type_synonym additional_spec = "(string \<times> dtype \<times> tensor_shape) list"

record dataset =
  ds_dag :: dag
  induce_func :: "nat option"
  ds_additional_spec :: "additional_spec option"
  additional_keys :: "string list"
  edge_types :: "string list"
  rds :: raw_dataset
  pos_size :: "nat option"
  output_types :: "dtype list"
  output_shapes :: "tensor_shape list"
  ds_values :: "tensor list"

section \<open>The schema declarer\<close>

subsection \<open>\<open>_data_types_and_shapes\<close>\<close>

text \<open>\<open>np.array(xs)[mask]\<close> with a boolean mask keeps the entries at the true
  positions, in order; a mask of another length than the array is an \<open>IndexError\<close>.
  The arrays are taken as one-dimensional arrays of the dtype and \<open>TensorShape\<close>
  objects listed.\<close>

definition mask_select :: "'a list \<Rightarrow> bool list \<Rightarrow> error + 'a list" where
  "mask_select xs m =
     (if length m = length xs then Inr (map fst (filter snd (zip xs m)))
      else Inl IndexError)"

definition data_types_and_shapes ::
  "raw_dataset \<Rightarrow> decoder \<Rightarrow> bool \<Rightarrow> bool \<Rightarrow> error + (dtype list \<times> tensor_shape list)" where
  "data_types_and_shapes r node_decoder is_edge is_sparse =
     (case get_mask r node_decoder is_edge is_sparse of
        (feat_masks, id_masks, sparse_masks) \<Rightarrow>
          ebind (mask_select [TF_int64, TF_float32, TF_string, TF_int32, TF_float32] feat_masks)
          (\<lambda>feat_types.
          ebind (mask_select [[None, Some (int_attr_num node_decoder)],
                              [None, Some (float_attr_num node_decoder)],
                              [None, Some (string_attr_num node_decoder)],
                              [None],
                              [None]] feat_masks)
          (\<lambda>feat_shapes.
          ebind (mask_select [TF_int64, TF_int64] id_masks)
          (\<lambda>id_types.
          ebind (mask_select [[None], [None]] id_masks)
          (\<lambda>id_shapes.
          ebind (mask_select [TF_int64, TF_int64, TF_int64] sparse_masks)
          (\<lambda>sparse_types.
          ebind (mask_select [[None], [None, Some 2], [None]] sparse_masks)
          (\<lambda>sparse_shapes.
            Inr (feat_types @ id_types @ sparse_types,
                 feat_shapes @ id_shapes @ sparse_shapes))))))))"

subsection \<open>\<open>_raw_flatten_types_and_shapes\<close>\<close>

text \<open>The loop over \<open>self._rds.masks.keys()\<close>; the accumulator is the pair
  \<open>(output_types, output_shapes)\<close> that each round extends.\<close>

fun raw_flatten_loop ::
  "dataset \<Rightarrow> string list \<Rightarrow> dtype list \<times> tensor_shape list
     \<Rightarrow> error + (dtype list \<times> tensor_shape list)" where
  "raw_flatten_loop ds [] acc = Inr acc"
| "raw_flatten_loop ds (alias # rest) (otypes, oshapes) =
     (case get_node (ds_dag ds) alias of
        None \<Rightarrow> Inl (NodeNotFound alias)
      | Some node \<Rightarrow>
          ebind (data_types_and_shapes (rds ds) (dn_decoder node)
                   (is_traverse_edge node) (dn_sparse node))
            (\<lambda>(types, shapes). raw_flatten_loop ds rest (otypes @ types, oshapes @ shapes)))"

definition raw_flatten_types_and_shapes ::
  "dataset \<Rightarrow> error + (dtype list \<times> tensor_shape list)" where
  "raw_flatten_types_and_shapes ds = raw_flatten_loop ds (masks_keys (rds ds)) ([], [])"

subsection \<open>The declared fields, as the specification lists them\<close>

text \<open>The ten candidate fields of one alias in the order the specification gives:
  int attrs, float attrs, string attrs, labels, weights; ids, dst-ids; offsets, indices,
  dense-shape. The second dimension of the three attribute fields is the decoder's
  count.\<close>

definition field_table :: "decoder \<Rightarrow> (dtype \<times> tensor_shape) list" where
  "field_table d =
     [(TF_int64, [None, Some (int_attr_num d)]),
      (TF_float32, [None, Some (float_attr_num d)]),
      (TF_string, [None, Some (string_attr_num d)]),
      (TF_int32, [None]),
      (TF_float32, [None]),
      (TF_int64, [None]),
      (TF_int64, [None]),
      (TF_int64, [None]),
      (TF_int64, [None, Some 2]),
      (TF_int64, [None])]"

definition mask_slots :: "bool list \<times> bool list \<times> bool list \<Rightarrow> bool" where
  "mask_slots m = (case m of (f, i, s) \<Rightarrow> length f = 5 \<and> length i = 2 \<and> length s = 3)"

definition flat_mask :: "bool list \<times> bool list \<times> bool list \<Rightarrow> bool list" where
  "flat_mask m = (case m of (f, i, s) \<Rightarrow> f @ i @ s)"

definition selected_fields ::
  "raw_dataset \<Rightarrow> decoder \<Rightarrow> bool \<Rightarrow> bool \<Rightarrow> (dtype \<times> tensor_shape) list" where
  "selected_fields r d is_edge is_sparse =
     map fst (filter snd (zip (field_table d) (flat_mask (get_mask r d is_edge is_sparse))))"

definition alias_fields :: "dataset \<Rightarrow> string \<Rightarrow> (dtype \<times> tensor_shape) list" where
  "alias_fields ds alias =
     (case get_node (ds_dag ds) alias of
        None \<Rightarrow> []
      | Some node \<Rightarrow>
          selected_fields (rds ds) (dn_decoder node) (is_traverse_edge node) (dn_sparse node))"

definition alias_declared :: "dataset \<Rightarrow> string \<Rightarrow> bool" where
  "alias_declared ds alias =
     (case get_node (ds_dag ds) alias of
        None \<Rightarrow> False
      | Some node \<Rightarrow>
          mask_slots (get_mask (rds ds) (dn_decoder node) (is_traverse_edge node) (dn_sparse node)))"

subsection \<open>\<open>_batchgraph_types_and_shapes\<close>\<close>

text \<open>The three loops of the function, each extending the pair of tuples
  \<open>(output_types, output_shapes)\<close>: one edge-index field per entry of
  \<open>self.edge_types\<close>, the fields of each node type's decoder followed by the
  \<open>graph_node_offsets\<close> field, and one field per additional key.\<close>

fun edge_index_loop ::
  "string list \<Rightarrow> dtype list \<times> tensor_shape list \<Rightarrow> dtype list \<times> tensor_shape list" where
  "edge_index_loop [] acc = acc"
| "edge_index_loop (edge # rest) (otypes, oshapes) =
     edge_index_loop rest (otypes @ [TF_int32], oshapes @ [[Some 2, None]])"

fun node_fields_loop ::
  "dataset \<Rightarrow> string list \<Rightarrow> dtype list \<times> tensor_shape list
     \<Rightarrow> error + (dtype list \<times> tensor_shape list)" where
  "node_fields_loop ds [] acc = Inr acc"
| "node_fields_loop ds (node # rest) (otypes, oshapes) =
     ebind (data_types_and_shapes (rds ds) (graph_get_node_decoder (ds_dag ds) node) False False)
       (\<lambda>(node_types, node_shapes).
          node_fields_loop ds rest
            (otypes @ node_types @ [TF_int64], oshapes @ node_shapes @ [[None]]))"

text \<open>\<open>self._additional_spec[key]\<close>: subscripting \<open>None\<close> is a \<open>TypeError\<close>, a key
  the dict does not have a \<open>KeyError\<close>.\<close>

fun additional_loop ::
  "dataset \<Rightarrow> string list \<Rightarrow> dtype list \<times> tensor_shape list
     \<Rightarrow> error + (dtype list \<times> tensor_shape list)" where
  "additional_loop ds [] acc = Inr acc"
| "additional_loop ds (key # rest) (otypes, oshapes) =
     (case ds_additional_spec ds of
        None \<Rightarrow> Inl TypeError
      | Some spec \<Rightarrow>
          (case map_of spec key of
             None \<Rightarrow> Inl (KeyError key)
           | Some (t, s) \<Rightarrow> additional_loop ds rest (otypes @ [t], oshapes @ [s])))"

definition batchgraph_types_and_shapes ::
  "dataset \<Rightarrow> error + (dtype list \<times> tensor_shape list)" where
  "batchgraph_types_and_shapes ds =
     ebind (node_fields_loop ds (dag_node_types (ds_dag ds))
              (edge_index_loop (edge_types ds) ([], [])))
       (\<lambda>acc. additional_loop ds (additional_keys ds) acc)"

subsection \<open>\<open>_batchgraph_flatten_types_and_shapes\<close>\<close>

text \<open>The function assigns \<open>self.pos_size\<close>, so it returns the updated object with
  the two lists.\<close>

definition batchgraph_flatten_types_and_shapes ::
  "sub_keys \<Rightarrow> dataset \<Rightarrow> error + (dataset \<times> dtype list \<times> tensor_shape list)" where
  "batchgraph_flatten_types_and_shapes sk ds =
     ebind (batchgraph_types_and_shapes ds)
       (\<lambda>(otypes, oshapes).
          let ds' = ds\<lparr>pos_size := Some (length otypes)\<rparr> in
          if NEG_DST sk \<in> set (list_alias (ds_dag ds')) then
            ebind (batchgraph_types_and_shapes ds')
              (\<lambda>(neg_types, neg_shapes).
                 Inr (ds', otypes @ neg_types, oshapes @ neg_shapes))
          else Inr (ds', otypes, oshapes))"

subsection \<open>\<open>_make_iterator\<close> and \<open>__init__\<close>\<close>

text \<open>The iterator is a \<open>tf.data\<close> dataset made from the generator and the declared
  types and shapes; the declared schema is kept in \<open>output_types\<close> and
  \<open>output_shapes\<close>.\<close>

definition make_iterator :: "sub_keys \<Rightarrow> dataset \<Rightarrow> error + dataset" where
  "make_iterator sk ds =
     (case induce_func ds of
        None \<Rightarrow>
          ebind (raw_flatten_types_and_shapes ds)
            (\<lambda>(otypes, oshapes). Inr (ds\<lparr>output_types := otypes, output_shapes := oshapes\<rparr>))
      | Some f \<Rightarrow>
          ebind (batchgraph_flatten_types_and_shapes sk ds)
            (\<lambda>(ds', otypes, oshapes).
               Inr (ds'\<lparr>output_types := otypes, output_shapes := oshapes\<rparr>)))"

text \<open>\<open>__init__\<close>. \<open>r\<close> is the \<open>RawDataset(query, window)\<close> the constructor makes and
  \<open>vals\<close> the tuple of tensors that \<open>self._iterator.get_next()\<close> hands back.
  \<open>init_fields\<close> is the object after lines 65 to 72, before \<open>_make_iterator\<close>
  runs.\<close>

definition init_fields ::
  "dag \<Rightarrow> raw_dataset \<Rightarrow> nat option \<Rightarrow> additional_spec option \<Rightarrow> string list option
     \<Rightarrow> dataset" where
  "init_fields query r induce induce_additional_spec etypes =
     \<lparr>ds_dag = query,
      induce_func = induce,
      ds_additional_spec = induce_additional_spec,
      additional_keys =
        (case induce_additional_spec of None \<Rightarrow> [] | Some spec \<Rightarrow> map fst spec),
      edge_types = (case etypes of Some es \<Rightarrow> es | None \<Rightarrow> dag_edge_types query),
      rds = r,
      pos_size = None,
      output_types = [],
      output_shapes = [],
      ds_values = []\<rparr>"

definition Dataset_init ::
  "sub_keys \<Rightarrow> dag \<Rightarrow> raw_dataset \<Rightarrow> nat option \<Rightarrow> additional_spec option
     \<Rightarrow> string list option \<Rightarrow> tensor list \<Rightarrow> error + dataset" where
  "Dataset_init sk query r induce induce_additional_spec etypes vals =
     ebind (make_iterator sk (init_fields query r induce induce_additional_spec etypes))
       (\<lambda>ds'. Inr (ds'\<lparr>ds_values := vals\<rparr>))"

subsection \<open>The batch-mode fields, as the specification lists them\<close>

text \<open>The state in which \<open>__init__\<close> leaves the additional keys: the keys of the
  dict when one is given (a dict has each key once), no key otherwise.\<close>

definition additional_keys_set :: "dataset \<Rightarrow> bool" where
  "additional_keys_set ds =
     (case ds_additional_spec ds of
        None \<Rightarrow> additional_keys ds = []
      | Some spec \<Rightarrow> additional_keys ds = map fst spec \<and> distinct (map fst spec))"

definition additional_fields :: "dataset \<Rightarrow> (dtype \<times> tensor_shape) list" where
  "additional_fields ds = (case ds_additional_spec ds of None \<Rightarrow> [] | Some spec \<Rightarrow> map snd spec)"

definition node_type_fields :: "dataset \<Rightarrow> string \<Rightarrow> (dtype \<times> tensor_shape) list" where
  "node_type_fields ds node =
     selected_fields (rds ds) (graph_get_node_decoder (ds_dag ds) node) False False
       @ [(TF_int64, [None])]"

definition node_types_declared :: "dataset \<Rightarrow> bool" where
  "node_types_declared ds =
     list_all (\<lambda>node. mask_slots (get_mask (rds ds)
                          (graph_get_node_decoder (ds_dag ds) node) False False))
       (dag_node_types (ds_dag ds))"

definition batch_block :: "dataset \<Rightarrow> (dtype \<times> tensor_shape) list" where
  "batch_block ds =
     map (\<lambda>edge. (TF_int32, [Some 2, None])) (edge_types ds)
       @ concat (map (node_type_fields ds) (dag_node_types (ds_dag ds)))
       @ additional_fields ds"

section \<open>The BatchGraph reconstructor\<close>

text \<open>\<open>BatchGraph.from_tensors\<close> and \<open>HeteroBatchGraph.from_tensors\<close> belong to other
  modules: a batch object is the record of the call that builds it (the class and the
  four arguments).\<close>

datatype batch_class = BatchGraph | HeteroBatchGraph

datatype node_schema =
    SingleSchema string decoder
  | TypedSchemas "(string \<times> decoder) list"

record batch =
  bg_class :: batch_class
  bg_tensors :: "tensor list"
  bg_node_schema :: node_schema
  bg_edge_schema :: "(string \<times> decoder option) list option"
  bg_additional_keys :: "string list"

definition from_tensors ::
  "batch_class \<Rightarrow> tensor list \<Rightarrow> node_schema \<Rightarrow> (string \<times> decoder option) list option
     \<Rightarrow> string list \<Rightarrow> batch" where
  "from_tensors graph tensors nschema eschema keys =
     \<lparr>bg_class = graph, bg_tensors = tensors, bg_node_schema = nschema,
      bg_edge_schema = eschema, bg_additional_keys = keys\<rparr>"

definition is_hetero :: "dataset \<Rightarrow> bool" where
  "is_hetero ds = (length (dag_node_types (ds_dag ds)) > 1 \<or> length (edge_types ds) > 1)"

text \<open>\<open>get_batchgraph\<close>. Reading \<open>self.pos_size\<close> before
  \<open>_batchgraph_flatten_types_and_shapes\<close> has set it is an \<open>AttributeError\<close>. The
  result \<open>None\<close> of Python is \<open>Inr None\<close>.\<close>

definition get_batchgraph :: "sub_keys \<Rightarrow> dataset \<Rightarrow> string \<Rightarrow> error + batch option" where
  "get_batchgraph sk ds alias =
     (case get_node (ds_dag ds) (POS_SRC sk) of
        None \<Rightarrow> Inl (NodeNotFound (POS_SRC sk))
      | Some src \<Rightarrow>
          let nschema =
                (if is_hetero ds
                 then TypedSchemas (map (\<lambda>x. (x, graph_get_node_decoder (ds_dag ds) x))
                                      (dag_node_types (ds_dag ds)))
                 else SingleSchema (dn_type src) (dn_decoder src));
              eschema =
                (if is_hetero ds then Some (map (\<lambda>x. (x, None)) (edge_types ds)) else None);
              graph = (if is_hetero ds then HeteroBatchGraph else BatchGraph)
          in (case pos_size ds of
                None \<Rightarrow> Inl (AttributeError ''pos_size'')
              | Some n \<Rightarrow>
                  let pos_graph =
                        from_tensors graph (take n (ds_values ds)) nschema eschema
                          (additional_keys ds);
                      neg_graph =
                        (if NEG_DST sk \<in> set (list_alias (ds_dag ds))
                         then Some (from_tensors graph (drop n (ds_values ds)) nschema eschema
                                      (additional_keys ds))
                         else None)
                  in if alias = POS_SRC sk \<or> alias = POS_DST sk then Inr (Some pos_graph)
                     else if alias = NEG_DST sk then Inr neg_graph
                     else Inl (ValueError BadBatchAlias)))"

section \<open>The lazy generator adapter\<close>

text \<open>One call into the raw data source either returns, raises \<open>OutOfRangeError\<close>, or
  raises something else. The source has a state of its own (\<open>'s\<close>) that each call
  advances. A generator is the function that one \<open>next()\<close> of the consumer runs: it
  takes the generator's state and gives what the consumer sees with the new state. A
  generator whose body has returned or raised is finished, and every later \<open>next()\<close>
  is \<open>StopIteration\<close>.\<close>

datatype 'a pull = Returned 'a | OutOfRangeError | Raised error

datatype 's gen_state = Running 's | Finished 's

datatype gen_out = Yield "tensor list" | StopIteration | Propagated error

datatype subgraph = SubGraph nat | HeteroSubGraph nat

text \<open>\<open>_raw_flatten_generator\<close>; \<open>gfv\<close> is \<open>self._rds.get_flatten_values\<close>.\<close>

fun raw_flatten_generator ::
  "('s \<Rightarrow> tensor list pull \<times> 's) \<Rightarrow> 's gen_state \<Rightarrow> gen_out \<times> 's gen_state" where
  "raw_flatten_generator gfv (Running s) =
     (case gfv s of
        (Returned vals, s') \<Rightarrow> (Yield vals, Running s')
      | (OutOfRangeError, s') \<Rightarrow> (StopIteration, Finished s')
      | (Raised e, s') \<Rightarrow> (Propagated e, Finished s'))"
| "raw_flatten_generator gfv (Finished s) = (StopIteration, Finished s)"

text \<open>\<open>_batchgraph_flatten_generator\<close>; \<open>gsg\<close> is \<open>self._rds.get_subgraphs\<close> applied
  to the induce function, \<open>bflat gs keys\<close> is
  \<open>BatchGraph.from_graphs(gs, keys).flatten()\<close> and \<open>hflat gs nts ets\<close> is
  \<open>HeteroBatchGraph.from_graphs(gs).flatten(nts, ets)\<close>. \<open>subgraphs[0]\<close> of an empty
  list is an \<open>IndexError\<close>, which the \<open>except\<close> clause does not catch.\<close>

definition flatten_subgraphs ::
  "(subgraph list \<Rightarrow> string list \<Rightarrow> tensor list)
     \<Rightarrow> (subgraph list \<Rightarrow> string list \<Rightarrow> string list \<Rightarrow> tensor list)
     \<Rightarrow> dataset \<Rightarrow> subgraph list \<Rightarrow> subgraph list option \<Rightarrow> error + tensor list" where
  "flatten_subgraphs bflat hflat ds subgraphs neg_subgraphs =
     (case subgraphs of
        [] \<Rightarrow> Inl IndexError
      | SubGraph _ # _ \<Rightarrow>
          Inr (bflat subgraphs (additional_keys ds) @
               (case neg_subgraphs of
                  None \<Rightarrow> []
                | Some negs \<Rightarrow> bflat negs (additional_keys ds)))
      | HeteroSubGraph _ # _ \<Rightarrow>
          Inr (hflat subgraphs (dag_node_types (ds_dag ds)) (edge_types ds) @
               (case neg_subgraphs of
                  None \<Rightarrow> []
                | Some negs \<Rightarrow> hflat negs (dag_node_types (ds_dag ds)) (edge_types ds))))"

fun batchgraph_flatten_generator ::
  "(nat option \<Rightarrow> 's \<Rightarrow> (subgraph list \<times> subgraph list option) pull \<times> 's)
     \<Rightarrow> (subgraph list \<Rightarrow> string list \<Rightarrow> tensor list)
     \<Rightarrow> (subgraph list \<Rightarrow> string list \<Rightarrow> string list \<Rightarrow> tensor list)
     \<Rightarrow> dataset \<Rightarrow> 's gen_state \<Rightarrow> gen_out \<times> 's gen_state" where
  "batchgraph_flatten_generator gsg bflat hflat ds (Running s) =
     (case gsg (induce_func ds) s of
        (Returned (subgraphs, neg_subgraphs), s') \<Rightarrow>
          (case flatten_subgraphs bflat hflat ds subgraphs neg_subgraphs of
             Inr flatten_list \<Rightarrow> (Yield flatten_list, Running s')
           | Inl e \<Rightarrow> (Propagated e, Finished s'))
      | (OutOfRangeError, s') \<Rightarrow> (StopIteration, Finished s')
      | (Raised e, s') \<Rightarrow> (Propagated e, Finished s'))"
| "batchgraph_flatten_generator gsg bflat hflat ds (Finished s) = (StopIteration, Finished s)"

text \<open>The consumer calling \<open>next()\<close> \<open>n\<close> times in a row.\<close>

fun pulls :: "('g \<Rightarrow> gen_out \<times> 'g) \<Rightarrow> nat \<Rightarrow> 'g \<Rightarrow> gen_out list \<times> 'g" where
  "pulls nxt 0 g = ([], g)"
| "pulls nxt (Suc n) g =
     (case nxt g of (out, g') \<Rightarrow> (case pulls nxt n g' of (outs, g'') \<Rightarrow> (out # outs, g'')))"

subsection \<open>A scripted source\<close>

text \<open>A source that plays a fixed script: each call hands out the next outcome of
  the list, and a script that has run out raises \<open>OutOfRangeError\<close>. The state of the
  source is what is left of the script.\<close>

definition script_pull :: "'a pull list \<Rightarrow> 'a pull \<times> 'a pull list" where
  "script_pull xs = (case xs of [] \<Rightarrow> (OutOfRangeError, []) | x # rest \<Rightarrow> (x, rest))"

text \<open>The tuple that one batch-mode pull yields.\<close>

definition flattened ::
  "(subgraph list \<Rightarrow> string list \<Rightarrow> tensor list)
     \<Rightarrow> (subgraph list \<Rightarrow> string list \<Rightarrow> string list \<Rightarrow> tensor list)
     \<Rightarrow> dataset \<Rightarrow> subgraph list \<times> subgraph list option \<Rightarrow> tensor list" where
  "flattened bflat hflat ds b =
     (case flatten_subgraphs bflat hflat ds (fst b) (snd b) of Inr fl \<Rightarrow> fl | Inl e \<Rightarrow> [])"

section \<open>The EgoGraph reconstructor\<close>

text \<open>The \<open>neighbors\<close> argument is any Python object; the ones told apart here are
  \<open>None\<close>, a list, a tuple and a string. \<open>truthy\<close> is the test of \<open>if neighbors:\<close> and
  \<open>is_list\<close> is \<open>isinstance(neighbors, list)\<close>.\<close>

datatype py_value = PyNone | PyList "string list" | PyTuple "string list" | PyStr string

fun truthy :: "py_value \<Rightarrow> bool" where
  "truthy PyNone = False"
| "truthy (PyList xs) = (xs \<noteq> [])"
| "truthy (PyTuple xs) = (xs \<noteq> [])"
| "truthy (PyStr s) = (s \<noteq> [])"

fun is_list :: "py_value \<Rightarrow> bool" where
  "is_list (PyList xs) = True"
| "is_list v = False"

text \<open>\<open>shape[-1]\<close>: the last entry, an \<open>IndexError\<close> on an empty shape.\<close>

definition shape_last :: "nat list \<Rightarrow> error + nat" where
  "shape_last sh = (case sh of [] \<Rightarrow> Inl IndexError | _ # _ \<Rightarrow> Inr (last sh))"

text \<open>The three lists \<open>nbr_nodes\<close>, \<open>nbr_edges\<close>, \<open>nbr_nums\<close> that both loops
  append to.\<close>

type_synonym hops = "string list \<times> string list \<times> nat list"

text \<open>The loop over the given neighbors (lines 115 to 126), \<open>pre\<close> being the
  predecessor.\<close>

fun explicit_loop :: "dag \<Rightarrow> dag_node \<Rightarrow> string list \<Rightarrow> hops \<Rightarrow> error + hops" where
  "explicit_loop g pre [] acc = Inr acc"
| "explicit_loop g pre (nbr # rest) (nbr_nodes, nbr_edges, nbr_nums) =
     (case get_node g nbr of
        None \<Rightarrow> Inl (NodeNotFound nbr)
      | Some dag_node \<Rightarrow>
          if dag_node \<notin> set (pos_downstreams pre @ neg_downstreams pre)
          then Inl (ValueError (NotDownstream (get_alias dag_node) (get_alias pre)))
          else if is_traverse_edge pre
          then explicit_loop g dag_node rest
                 (nbr_nodes, nbr_edges @ [get_alias dag_node], nbr_nums)
          else ebind (shape_last (dn_shape dag_node))
                 (\<lambda>k. explicit_loop g dag_node rest
                         (nbr_nodes @ [get_alias dag_node], nbr_edges, nbr_nums @ [k])))"

text \<open>The \<open>while recepts:\<close> loop (lines 131 to 143). \<open>pre\<close> is never reassigned in
  this branch, so the message names the source node; \<open>source\<close> is the alias the caller
  gave.\<close>

fun auto_loop :: "string \<Rightarrow> string \<Rightarrow> dag_node list \<Rightarrow> hops \<Rightarrow> error + hops" where
  "auto_loop pre_alias source [] acc = Inr acc"
| "auto_loop pre_alias source (DagNode a t d e sp sh pos neg # others)
       (nbr_nodes, nbr_edges, nbr_nums) =
     (if length (DagNode a t d e sp sh pos neg # others) > 1
      then Inl (ValueError (MultipleDownstreams pre_alias source))
      else if e
      then auto_loop pre_alias source pos (nbr_nodes, nbr_edges @ [a], nbr_nums)
      else ebind (shape_last sh)
             (\<lambda>k. auto_loop pre_alias source pos (nbr_nodes @ [a], nbr_edges, nbr_nums @ [k])))"

definition egograph_hops :: "dataset \<Rightarrow> string \<Rightarrow> py_value \<Rightarrow> error + hops" where
  "egograph_hops ds source neighbors =
     (case get_node (ds_dag ds) source of
        None \<Rightarrow> Inl (NodeNotFound source)
      | Some source_node \<Rightarrow>
          if truthy neighbors then
            (case neighbors of
               PyList nbrs \<Rightarrow> explicit_loop (ds_dag ds) source_node nbrs ([], [], [])
             | _ \<Rightarrow> Inl (ValueError NeighborsNotList))
          else auto_loop (get_alias source_node) source (pos_downstreams source_node)
                 ([], [], []))"

text \<open>The call of \<open>EgoGraph\<close> (lines 144 to 149): its six arguments in the order
  Python evaluates them. \<open>data_dict[alias]\<close> is a \<open>KeyError\<close> for an alias the dict
  does not have.\<close>

record egograph =
  eg_src :: data
  eg_nbr_nodes :: "data list"
  eg_node_schema :: "(string \<times> string) list"
  eg_nbr_nums :: "nat list"
  eg_nbr_edges :: "data list"
  eg_edge_schema :: "(string \<times> string) list"

fun data_of :: "(string \<Rightarrow> data option) \<Rightarrow> string list \<Rightarrow> error + data list" where
  "data_of data_dict [] = Inr []"
| "data_of data_dict (nbr # rest) =
     (case data_dict nbr of
        None \<Rightarrow> Inl (KeyError nbr)
      | Some x \<Rightarrow> ebind (data_of data_dict rest) (\<lambda>xs. Inr (x # xs)))"

fun schema_of :: "dag \<Rightarrow> string list \<Rightarrow> error + (string \<times> string) list" where
  "schema_of g [] = Inr []"
| "schema_of g (v # rest) =
     (case get_node g v of
        None \<Rightarrow> Inl (NodeNotFound v)
      | Some node \<Rightarrow>
          ebind (schema_of g rest)
            (\<lambda>xs. Inr ((dn_type node, feature_spec (dn_decoder node)) # xs)))"

definition make_egograph :: "dataset \<Rightarrow> string \<Rightarrow> hops \<Rightarrow> error + egograph" where
  "make_egograph ds source h =
     (case h of (nbr_nodes, nbr_edges, nbr_nums) \<Rightarrow>
        let data_dict = build_data_dict (rds ds) (ds_values ds) in
        (case data_dict source of
           None \<Rightarrow> Inl (KeyError source)
         | Some src \<Rightarrow>
             ebind (data_of data_dict nbr_nodes) (\<lambda>nodes.
             ebind (schema_of (ds_dag ds) (source # nbr_nodes)) (\<lambda>nschema.
             ebind (data_of data_dict nbr_edges) (\<lambda>edges.
             ebind (schema_of (ds_dag ds) nbr_edges) (\<lambda>eschema.
               Inr \<lparr>eg_src = src, eg_nbr_nodes = nodes, eg_node_schema = nschema,
                    eg_nbr_nums = nbr_nums, eg_nbr_edges = edges,
                    eg_edge_schema = eschema\<rparr>))))))"

definition get_egograph :: "dataset \<Rightarrow> string \<Rightarrow> py_value \<Rightarrow> error + egograph" where
  "get_egograph ds source neighbors =
     ebind (egograph_hops ds source neighbors) (make_egograph ds source)"

subsection \<open>The hops of an explicit chain, as the specification describes them\<close>

text \<open>The hops of a chain of neighbor nodes after a source: each node paired with its
  predecessor. A hop is valid when the node is among the positive or negative
  downstreams of the predecessor. A hop whose predecessor is an edge traversal is an
  edge-hop, any other a node-hop; a node-hop also records the last entry of the node's
  shape.\<close>

definition hop_pairs :: "dag_node \<Rightarrow> dag_node list \<Rightarrow> (dag_node \<times> dag_node) list" where
  "hop_pairs src nodes = zip (src # nodes) nodes"

definition invalid_hop :: "dag_node \<times> dag_node \<Rightarrow> bool" where
  "invalid_hop h = (snd h \<notin> set (pos_downstreams (fst h) @ neg_downstreams (fst h)))"

definition node_hops :: "dag_node \<Rightarrow> dag_node list \<Rightarrow> dag_node list" where
  "node_hops src nodes =
     map snd (filter (\<lambda>h. \<not> is_traverse_edge (fst h)) (hop_pairs src nodes))"

definition edge_hops :: "dag_node \<Rightarrow> dag_node list \<Rightarrow> dag_node list" where
  "edge_hops src nodes =
     map snd (filter (\<lambda>h. is_traverse_edge (fst h)) (hop_pairs src nodes))"

definition classified_hops :: "dag_node \<Rightarrow> dag_node list \<Rightarrow> hops" where
  "classified_hops src nodes =
     (map get_alias (node_hops src nodes),
      map get_alias (edge_hops src nodes),
      map (\<lambda>c. last (dn_shape c)) (node_hops src nodes))"

subsection \<open>The chain of positive downstreams, as the specification describes it\<close>

text \<open>The chain that the automatic mode follows from a list of positive downstreams:
  the one downstream, then its one positive downstream, and so on; the chain ends at a
  node without positive downstream, and it stops where a node has more than one, which
  is where the chain is ambiguous.\<close>

fun chain_ambiguous :: "dag_node list \<Rightarrow> bool" where
  "chain_ambiguous [] = False"
| "chain_ambiguous (DagNode a t d e sp sh pos neg # others) =
     (others \<noteq> [] \<or> chain_ambiguous pos)"

fun pos_chain :: "dag_node list \<Rightarrow> dag_node list" where
  "pos_chain [] = []"
| "pos_chain (DagNode a t d e sp sh pos neg # others) =
     (if others \<noteq> [] then [] else DagNode a t d e sp sh pos neg # pos_chain pos)"

definition automatic_hops :: "dag_node list \<Rightarrow> hops" where
  "automatic_hops recepts =
     (map get_alias (filter (\<lambda>c. \<not> is_traverse_edge c) (pos_chain recepts)),
      map get_alias (filter is_traverse_edge (pos_chain recepts)),
      map (\<lambda>c. last (dn_shape c)) (filter (\<lambda>c. \<not> is_traverse_edge c) (pos_chain recepts)))"

text \<open>The aliases that the call of \<open>EgoGraph\<close> looks up are in the query and in the
  data dict.\<close>

definition resolvable :: "dataset \<Rightarrow> string list \<Rightarrow> bool" where
  "resolvable ds aliases =
     list_all (\<lambda>a. get_node (ds_dag ds) a \<noteq> None \<and>
                    build_data_dict (rds ds) (ds_values ds) a \<noteq> None) aliases"

section \<open>A worked query\<close>

text \<open>A small query used to run the functions: a source \<open>s\<close> of type \<open>u\<close> with one
  positive downstream \<open>h1\<close> and one negative downstream \<open>n\<close>; \<open>h1\<close> is followed by
  the edge traversal \<open>e\<close> and that by \<open>h2\<close>. The node \<open>k\<close> has two positive
  downstreams. The mask function keeps a feature field when the decoder has it, always
  keeps ids, keeps dst-ids for edges and the sparse fields for sparse data.\<close>

definition example_decoder :: decoder where
  "example_decoder =
     \<lparr>int_attr_num = 2, float_attr_num = 1, string_attr_num = 0,
      labeled = True, weighted = False, feature_spec = ''f''\<rparr>"

definition example_get_mask ::
  "decoder \<Rightarrow> bool \<Rightarrow> bool \<Rightarrow> bool list \<times> bool list \<times> bool list" where
  "example_get_mask d is_edge is_sparse =
     ([0 < int_attr_num d, 0 < float_attr_num d, 0 < string_attr_num d, labeled d, weighted d],
      [True, is_edge],
      [is_sparse, is_sparse, is_sparse])"

definition example_h2 :: dag_node where
  "example_h2 = DagNode ''h2'' ''i'' example_decoder False False [4, 3, 2] [] []"

definition example_e :: dag_node where
  "example_e = DagNode ''e'' ''b'' example_decoder True False [4, 3] [example_h2] []"

definition example_h1 :: dag_node where
  "example_h1 = DagNode ''h1'' ''i'' example_decoder False False [4, 3] [example_e] []"

definition example_n :: dag_node where
  "example_n = DagNode ''n'' ''i'' example_decoder False False [4, 5] [] []"

definition example_s :: dag_node where
  "example_s = DagNode ''s'' ''u'' example_decoder False False [4] [example_h1] [example_n]"

definition example_k :: dag_node where
  "example_k = DagNode ''k'' ''u'' example_decoder False False [4] [example_h1, example_n] []"

definition example_dag :: dag where
  "example_dag =
     \<lparr>get_node = map_of [(''s'', example_s), (''h1'', example_h1), (''e'', example_e),
                         (''h2'', example_h2), (''n'', example_n), (''k'', example_k)],
      dag_node_types = [''u'', ''i''],
      dag_edge_types = [''b''],
      list_alias = [''s'', ''h1'', ''e'', ''h2'', ''n'', ''k''],
      graph_get_node_decoder = (\<lambda>t. example_decoder)\<rparr>"

definition example_rds :: raw_dataset where
  "example_rds =
     \<lparr>masks_keys = [''s'', ''e''],
      get_mask = example_get_mask,
      build_data_dict =
        (\<lambda>vals. map_of [(''s'', Data (take 1 vals)), (''h1'', Data (take 1 (drop 1 vals))),
                        (''e'', Data (take 1 (drop 2 vals))), (''h2'', Data (drop 3 vals))])\<rparr>"

definition example_keys :: sub_keys where
  "example_keys = \<lparr>POS_SRC = ''s'', POS_DST = ''d'', NEG_DST = ''n''\<rparr>"

definition example_spec :: additional_spec where
  "example_spec = [(''x'', TF_other ''bool'', [Some 7])]"

definition example_values :: "tensor list" where
  "example_values =
     [Tensor 0, Tensor 1, Tensor 2, Tensor 3, Tensor 4, Tensor 5, Tensor 6, Tensor 7,
      Tensor 8, Tensor 9, Tensor 10, Tensor 11, Tensor 12, Tensor 13, Tensor 14, Tensor 15,
      Tensor 16, Tensor 17, Tensor 18, Tensor 19, Tensor 20, Tensor 21, Tensor 22, Tensor 23]"

text \<open>The object as \<open>__init__\<close> leaves it before \<open>_make_iterator\<close> runs, without
  and with an induce function.\<close>

definition example_raw :: dataset where
  "example_raw =
     \<lparr>ds_dag = example_dag, induce_func = None, ds_additional_spec = None,
      additional_keys = [], edge_types = [''b''], rds = example_rds, pos_size = None,
      output_types = [], output_shapes = [], ds_values = []\<rparr>"

definition example_batch :: dataset where
  "example_batch =
     \<lparr>ds_dag = example_dag, induce_func = Some 0, ds_additional_spec = Some example_spec,
      additional_keys = [''x''], edge_types = [''b''], rds = example_rds, pos_size = None,
      output_types = [], output_shapes = [], ds_values = []\<rparr>"

text \<open>The batch-mode object once \<open>__init__\<close> is through: \<open>pos_size\<close> is the
  length of the block of twelve fields and the iterator has handed back its values.\<close>

definition example_ready :: dataset where
  "example_ready = example_batch\<lparr>pos_size := Some 12, ds_values := example_values\<rparr>"



text \<open>Stand-ins for the two flatten methods in the worked query: each subgraph gives
  one tensor.\<close>

definition example_bflat :: "subgraph list \<Rightarrow> string list \<Rightarrow> tensor list" where
  "example_bflat gs keys =
     map (\<lambda>g. case g of SubGraph k \<Rightarrow> Tensor k | HeteroSubGraph k \<Rightarrow> Tensor k) gs"

definition example_hflat :: "subgraph list \<Rightarrow> string list \<Rightarrow> string list \<Rightarrow> tensor list" where
  "example_hflat gs nts ets =
     map (\<lambda>g. case g of SubGraph k \<Rightarrow> Tensor k | HeteroSubGraph k \<Rightarrow> Tensor k) gs"

text \<open>The raw-mode object once \<open>__init__\<close> is through, with the values the iterator
  has handed back.\<close>

definition example_walk :: dataset where
  "example_walk = example_raw\<lparr>ds_values := example_values\<rparr>"

section \<open>Properties of the schema declarer\<close>

lemma ebind_simps [simp]:
  "ebind (Inl e) f = Inl e"
  "ebind (Inr x) f = f x"
  by (simp_all add: ebind_def)

lemma data_types_and_shapes_ok:
  assumes "mask_slots (get_mask r d e s)"
  shows "\<exists>tys shs. data_types_and_shapes r d e s = Inr (tys, shs) \<and>
           length tys = length shs \<and> zip tys shs = selected_fields r d e s"
proof -
  obtain f i sp where m: "get_mask r d e s = (f, i, sp)"
    by (cases "get_mask r d e s") auto
  from assms m have len: "length f = 5" "length i = 2" "length sp = 3"
    by (simp_all add: mask_slots_def)
  obtain f1 f2 f3 f4 f5 where f: "f = [f1, f2, f3, f4, f5]"
    using len(1) by (auto simp: length_Suc_conv eval_nat_numeral)
  obtain i1 i2 where i: "i = [i1, i2]"
    using len(2) by (auto simp: length_Suc_conv eval_nat_numeral)
  obtain s1 s2 s3 where sp: "sp = [s1, s2, s3]"
    using len(3) by (auto simp: length_Suc_conv eval_nat_numeral)
  show ?thesis
    by (simp add: data_types_and_shapes_def m f i sp mask_select_def selected_fields_def
        field_table_def flat_mask_def)
qed

subsection \<open>Raw mode\<close>

lemma raw_flatten_loop_ok:
  assumes "\<forall>alias\<in>set as. alias_declared ds alias" and "length tys = length shs"
  shows "\<exists>tys' shs'. raw_flatten_loop ds as (tys, shs) = Inr (tys', shs') \<and>
           length tys' = length shs' \<and>
           zip tys' shs' = zip tys shs @ concat (map (alias_fields ds) as)"
  using assms
proof (induction as arbitrary: tys shs)
  case Nil
  then show ?case by simp
next
  case (Cons a as)
  from Cons.prems(1) obtain node where n: "get_node (ds_dag ds) a = Some node"
    and ms: "mask_slots (get_mask (rds ds) (dn_decoder node) (is_traverse_edge node)
               (dn_sparse node))"
    by (auto simp: alias_declared_def split: option.splits)
  from data_types_and_shapes_ok [OF ms] obtain t s where
    d: "data_types_and_shapes (rds ds) (dn_decoder node) (is_traverse_edge node)
          (dn_sparse node) = Inr (t, s)"
    and l: "length t = length s"
    and z: "zip t s = selected_fields (rds ds) (dn_decoder node) (is_traverse_edge node)
              (dn_sparse node)"
    by blast
  have af: "alias_fields ds a = zip t s"
    by (simp add: alias_fields_def n z)
  from Cons.prems have rest: "\<forall>alias\<in>set as. alias_declared ds alias" by simp
  from Cons.prems(2) l have l2: "length (tys @ t) = length (shs @ s)" by simp
  from Cons.IH [OF rest l2] obtain tys' shs' where
    r: "raw_flatten_loop ds as (tys @ t, shs @ s) = Inr (tys', shs')"
    and l3: "length tys' = length shs'"
    and z3: "zip tys' shs' = zip (tys @ t) (shs @ s) @ concat (map (alias_fields ds) as)"
    by blast
  have "zip (tys @ t) (shs @ s) = zip tys shs @ zip t s"
    using Cons.prems(2) by simp
  with r l3 z3 af show ?case
    by (simp add: n d)
qed

lemma field_table_leading:
  "sh \<in> snd ` set (field_table d) \<Longrightarrow> \<exists>rest. sh = None # rest"
  by (auto simp: field_table_def)

lemma selected_fields_subset:
  "set (selected_fields r d e s) \<subseteq> set (field_table d)"
  unfolding selected_fields_def
  by (auto dest!: set_zip_leftD)

lemma alias_fields_leading:
  assumes "(t, sh) \<in> set (alias_fields ds a)"
  shows "\<exists>rest. sh = None # rest"
proof -
  from assms obtain node where
    "(t, sh) \<in> set (selected_fields (rds ds) (dn_decoder node) (is_traverse_edge node)
                      (dn_sparse node))"
    by (auto simp: alias_fields_def split: option.splits)
  with selected_fields_subset have "(t, sh) \<in> set (field_table (dn_decoder node))" by blast
  then have "sh \<in> snd ` set (field_table (dn_decoder node))" by force
  then show ?thesis by (rule field_table_leading)
qed

text \<open>
  Claim C4. In raw mode the declared sequence is the concatenation, over the aliases in
  the order \<open>masks.keys()\<close> enumerates them, of each alias's mask-selected (type, shape)
  pairs. The pairs of one alias are the entries of \<open>field_table\<close> that its three masks
  select, so they come in the order int attrs, float attrs, string attrs, labels,
  weights, ids, dst-ids, offsets, indices, dense-shape, the attribute fields carrying the
  decoder's int, float and string attribute counts as their second dimension. Every
  declared shape starts with an unbound dimension. The hypothesis is that each alias is
  one of the query and that its masks have 5, 2 and 3 slots.
\<close>

theorem raw_declared_sequence:
  assumes "\<forall>alias\<in>set (masks_keys (rds ds)). alias_declared ds alias"
  shows "\<exists>tys shs. raw_flatten_types_and_shapes ds = Inr (tys, shs) \<and>
           length tys = length shs \<and>
           zip tys shs = concat (map (alias_fields ds) (masks_keys (rds ds))) \<and>
           (\<forall>sh\<in>set shs. \<exists>rest. sh = None # rest)"
proof -
  from raw_flatten_loop_ok [OF assms, of "[]" "[]"] obtain tys shs where
    r: "raw_flatten_loop ds (masks_keys (rds ds)) ([], []) = Inr (tys, shs)"
    and l: "length tys = length shs"
    and z: "zip tys shs = concat (map (alias_fields ds) (masks_keys (rds ds)))"
    by auto
  have "\<exists>rest. sh = None # rest" if "sh \<in> set shs" for sh
  proof -
    from that l obtain t where "(t, sh) \<in> set (zip tys shs)"
      by (metis in_set_impl_in_set_zip2)
    with z obtain a where "(t, sh) \<in> set (alias_fields ds a)" by auto
    then show ?thesis by (rule alias_fields_leading)
  qed
  with r l z show ?thesis
    by (simp add: raw_flatten_types_and_shapes_def)
qed

theorem raw_declared_sequence_example:
  "\<exists>tys shs. raw_flatten_types_and_shapes example_raw = Inr (tys, shs) \<and>
     length tys = length shs \<and>
     zip tys shs =
       [(TF_int64, [None, Some 2]), (TF_float32, [None, Some 1]), (TF_int32, [None]),
        (TF_int64, [None]),
        (TF_int64, [None, Some 2]), (TF_float32, [None, Some 1]), (TF_int32, [None]),
        (TF_int64, [None]), (TF_int64, [None])]"
proof -
  have h: "\<forall>alias\<in>set (masks_keys (rds example_raw)). alias_declared example_raw alias"
    by (simp add: example_raw_def example_rds_def example_dag_def alias_declared_def
        mask_slots_def example_get_mask_def)
  have f: "concat (map (alias_fields example_raw) (masks_keys (rds example_raw))) =
       [(TF_int64, [None, Some 2]), (TF_float32, [None, Some 1]), (TF_int32, [None]),
        (TF_int64, [None]),
        (TF_int64, [None, Some 2]), (TF_float32, [None, Some 1]), (TF_int32, [None]),
        (TF_int64, [None]), (TF_int64, [None])]"
    by (simp add: example_raw_def example_rds_def example_dag_def alias_fields_def
        selected_fields_def field_table_def flat_mask_def example_get_mask_def
        example_s_def example_e_def example_decoder_def)
  from raw_declared_sequence [OF h] f show ?thesis by auto
qed

subsection \<open>Batch mode\<close>

lemma edge_index_loop_eq:
  "edge_index_loop es (tys, shs) =
     (tys @ map (\<lambda>e. TF_int32) es, shs @ map (\<lambda>e. [Some 2, None]) es)"
  by (induction es arbitrary: tys shs) simp_all

lemma zip_map_same:
  "zip (map f xs) (map g xs) = map (\<lambda>x. (f x, g x)) xs"
  by (induction xs) simp_all

lemma node_fields_loop_ok:
  assumes "list_all (\<lambda>node. mask_slots (get_mask (rds ds)
                          (graph_get_node_decoder (ds_dag ds) node) False False)) ns"
    and "length tys = length shs"
  shows "\<exists>tys' shs'. node_fields_loop ds ns (tys, shs) = Inr (tys', shs') \<and>
           length tys' = length shs' \<and>
           zip tys' shs' = zip tys shs @ concat (map (node_type_fields ds) ns)"
  using assms
proof (induction ns arbitrary: tys shs)
  case Nil
  then show ?case by simp
next
  case (Cons n ns)
  from Cons.prems(1) have
    ms: "mask_slots (get_mask (rds ds) (graph_get_node_decoder (ds_dag ds) n) False False)"
    and rest: "list_all (\<lambda>node. mask_slots (get_mask (rds ds)
                          (graph_get_node_decoder (ds_dag ds) node) False False)) ns"
    by simp_all
  from data_types_and_shapes_ok [OF ms] obtain t s where
    d: "data_types_and_shapes (rds ds) (graph_get_node_decoder (ds_dag ds) n) False False
          = Inr (t, s)"
    and l: "length t = length s"
    and z: "zip t s = selected_fields (rds ds) (graph_get_node_decoder (ds_dag ds) n) False False"
    by blast
  from Cons.prems(2) l have l2: "length (tys @ t @ [TF_int64]) = length (shs @ s @ [[None]])"
    by simp
  from Cons.IH [OF rest l2] obtain tys' shs' where
    r: "node_fields_loop ds ns (tys @ t @ [TF_int64], shs @ s @ [[None]]) = Inr (tys', shs')"
    and l3: "length tys' = length shs'"
    and z3: "zip tys' shs' = zip (tys @ t @ [TF_int64]) (shs @ s @ [[None]])
               @ concat (map (node_type_fields ds) ns)"
    by blast
  have "zip (tys @ t @ [TF_int64]) (shs @ s @ [[None]]) = zip tys shs @ node_type_fields ds n"
    using Cons.prems(2) l z by (simp add: node_type_fields_def)
  with r l3 z3 show ?case
    by (simp add: d)
qed

lemma map_of_keys_distinct:
  "distinct (map fst spec) \<Longrightarrow> map (\<lambda>k. the (map_of spec k)) (map fst spec) = map snd spec"
  by (induction spec) (auto simp: image_iff)

lemma additional_loop_ok:
  assumes "ds_additional_spec ds = Some spec" and "set keys \<subseteq> fst ` set spec"
    and "length tys = length shs"
  shows "\<exists>tys' shs'. additional_loop ds keys (tys, shs) = Inr (tys', shs') \<and>
           length tys' = length shs' \<and>
           zip tys' shs' = zip tys shs @ map (\<lambda>k. the (map_of spec k)) keys"
  using assms(2,3)
proof (induction keys arbitrary: tys shs)
  case Nil
  then show ?case by simp
next
  case (Cons k ks)
  from Cons.prems(1) obtain t s where m: "map_of spec k = Some (t, s)"
    by (cases "map_of spec k") (auto simp: map_of_eq_None_iff)
  from Cons.prems have sub: "set ks \<subseteq> fst ` set spec"
    and l2: "length (tys @ [t]) = length (shs @ [s])" by simp_all
  from Cons.IH [OF sub l2] obtain tys' shs' where
    "additional_loop ds ks (tys @ [t], shs @ [s]) = Inr (tys', shs')"
    "length tys' = length shs'"
    "zip tys' shs' = zip (tys @ [t]) (shs @ [s]) @ map (\<lambda>k. the (map_of spec k)) ks"
    by blast
  with Cons.prems(2) show ?case
    by (simp add: assms(1) m)
qed

lemma additional_loop_init:
  assumes "additional_keys_set ds" and "length tys = length shs"
  shows "\<exists>tys' shs'. additional_loop ds (additional_keys ds) (tys, shs) = Inr (tys', shs') \<and>
           length tys' = length shs' \<and>
           zip tys' shs' = zip tys shs @ additional_fields ds"
proof (cases "ds_additional_spec ds")
  case None
  with assms show ?thesis
    by (simp add: additional_keys_set_def additional_fields_def)
next
  case (Some spec)
  with assms(1) have k: "additional_keys ds = map fst spec" and d: "distinct (map fst spec)"
    by (simp_all add: additional_keys_set_def)
  have sub: "set (additional_keys ds) \<subseteq> fst ` set spec" by (simp add: k)
  have f: "additional_fields ds = map (\<lambda>k. the (map_of spec k)) (additional_keys ds)"
    by (simp only: k map_of_keys_distinct [OF d] additional_fields_def Some option.case)
  from additional_loop_ok [OF Some sub assms(2)] show ?thesis
    by (simp only: f)
qed

lemma batchgraph_types_and_shapes_ok:
  assumes "node_types_declared ds" and "additional_keys_set ds"
  shows "\<exists>tys shs. batchgraph_types_and_shapes ds = Inr (tys, shs) \<and>
           length tys = length shs \<and> zip tys shs = batch_block ds"
proof -
  let ?e = "map (\<lambda>e. TF_int32) (edge_types ds)"
  let ?s = "map (\<lambda>e. [Some 2, None]) (edge_types ds)"
  have e: "edge_index_loop (edge_types ds) ([], []) = (?e, ?s)"
    by (simp add: edge_index_loop_eq)
  have le: "length ?e = length ?s" by simp
  from node_fields_loop_ok [OF assms(1) [unfolded node_types_declared_def] le]
  obtain t1 s1 where
    n: "node_fields_loop ds (dag_node_types (ds_dag ds)) (?e, ?s) = Inr (t1, s1)"
    and l1: "length t1 = length s1"
    and z1: "zip t1 s1 = zip ?e ?s @ concat (map (node_type_fields ds) (dag_node_types (ds_dag ds)))"
    by blast
  from additional_loop_init [OF assms(2) l1] obtain t2 s2 where
    a: "additional_loop ds (additional_keys ds) (t1, s1) = Inr (t2, s2)"
    and l2: "length t2 = length s2"
    and z2: "zip t2 s2 = zip t1 s1 @ additional_fields ds"
    by blast
  have "zip ?e ?s = map (\<lambda>edge. (TF_int32, [Some 2, None])) (edge_types ds)"
    by (rule zip_map_same)
  with z1 z2 have "zip t2 s2 = batch_block ds"
    by (simp add: batch_block_def)
  with e n a l2 show ?thesis
    by (simp add: batchgraph_types_and_shapes_def)
qed

text \<open>
  Claim C3. In batch mode the declared sequence is: for each entry of
  \<open>self.edge_types\<close> one edge-index field of type \<open>int32\<close> and shape \<open>[2, unbound]\<close>;
  then for each node type the fields its masks select, followed by one node-offset
  field of type \<open>int64\<close> and shape \<open>[unbound]\<close>; then one field per additional key with
  the type and shape the caller gave for it. The hypotheses are that the masks of each
  node type's decoder have 5, 2 and 3 slots and that the additional keys are the keys
  of the additional spec, as \<open>__init__\<close> sets them.
\<close>

theorem batch_declared_sequence:
  assumes "node_types_declared ds" and "additional_keys_set ds"
  shows "\<exists>tys shs. batchgraph_types_and_shapes ds = Inr (tys, shs) \<and>
           length tys = length shs \<and>
           zip tys shs =
             map (\<lambda>edge. (TF_int32, [Some 2, None])) (edge_types ds)
               @ concat (map (\<lambda>node.
                    selected_fields (rds ds) (graph_get_node_decoder (ds_dag ds) node) False False
                      @ [(TF_int64, [None])]) (dag_node_types (ds_dag ds)))
               @ (case ds_additional_spec ds of None \<Rightarrow> [] | Some spec \<Rightarrow> map snd spec)"
proof -
  have "batch_block ds =
      map (\<lambda>edge. (TF_int32, [Some 2, None])) (edge_types ds)
               @ concat (map (\<lambda>node.
                    selected_fields (rds ds) (graph_get_node_decoder (ds_dag ds) node) False False
                      @ [(TF_int64, [None])]) (dag_node_types (ds_dag ds)))
               @ (case ds_additional_spec ds of None \<Rightarrow> [] | Some spec \<Rightarrow> map snd spec)"
    unfolding batch_block_def additional_fields_def
    by (simp add: node_type_fields_def [abs_def])
  with batchgraph_types_and_shapes_ok [OF assms] show ?thesis by simp
qed

theorem batch_declared_sequence_example:
  "\<exists>tys shs. batchgraph_types_and_shapes example_batch = Inr (tys, shs) \<and>
           length tys = length shs \<and>
           zip tys shs =
             [(TF_int32, [Some 2, None]),
              (TF_int64, [None, Some 2]), (TF_float32, [None, Some 1]), (TF_int32, [None]),
              (TF_int64, [None]), (TF_int64, [None]),
              (TF_int64, [None, Some 2]), (TF_float32, [None, Some 1]), (TF_int32, [None]),
              (TF_int64, [None]), (TF_int64, [None]),
              (TF_other ''bool'', [Some 7])]"
proof -
  have h1: "node_types_declared example_batch"
    by (simp add: node_types_declared_def example_batch_def example_dag_def example_rds_def
        example_get_mask_def mask_slots_def)
  have h2: "additional_keys_set example_batch"
    by (simp add: additional_keys_set_def example_batch_def example_spec_def)
  from batch_declared_sequence [OF h1 h2] show ?thesis
    by (simp add: example_batch_def example_dag_def example_rds_def example_get_mask_def
        example_spec_def example_decoder_def selected_fields_def field_table_def flat_mask_def)
qed

subsection \<open>The positive block and its length\<close>

lemma node_fields_loop_cong:
  assumes "ds_dag ds' = ds_dag ds" and "rds ds' = rds ds"
  shows "node_fields_loop ds' ns acc = node_fields_loop ds ns acc"
proof (induction ns arbitrary: acc)
  case Nil
  show ?case by simp
next
  case (Cons n ns)
  obtain tys shs where acc: "acc = (tys, shs)" by (cases acc)
  show ?case
    by (cases "data_types_and_shapes (rds ds) (graph_get_node_decoder (ds_dag ds) n) False False")
      (auto simp: acc assms Cons.IH)
qed

lemma additional_loop_cong:
  assumes "ds_additional_spec ds' = ds_additional_spec ds"
  shows "additional_loop ds' ks = additional_loop ds ks"
proof
  fix acc
  show "additional_loop ds' ks acc = additional_loop ds ks acc"
  proof (induction ks arbitrary: acc)
    case Nil
    show ?case by simp
  next
    case (Cons k ks)
    obtain tys shs where acc: "acc = (tys, shs)" by (cases acc)
    show ?case
      by (simp add: acc assms Cons.IH split: option.splits)
  qed
qed

lemma batchgraph_types_and_shapes_cong:
  assumes "ds_dag ds' = ds_dag ds" and "rds ds' = rds ds" and "edge_types ds' = edge_types ds"
    and "additional_keys ds' = additional_keys ds"
    and "ds_additional_spec ds' = ds_additional_spec ds"
  shows "batchgraph_types_and_shapes ds' = batchgraph_types_and_shapes ds"
  unfolding batchgraph_types_and_shapes_def
  by (simp add: assms node_fields_loop_cong [OF assms(1,2)] additional_loop_cong [OF assms(5)])

lemma batchgraph_flatten_types_and_shapes_ok:
  assumes "batchgraph_types_and_shapes ds = Inr (bt, bs)"
  shows "batchgraph_flatten_types_and_shapes sk ds =
           Inr (ds\<lparr>pos_size := Some (length bt)\<rparr>,
                if NEG_DST sk \<in> set (list_alias (ds_dag ds)) then bt @ bt else bt,
                if NEG_DST sk \<in> set (list_alias (ds_dag ds)) then bs @ bs else bs)"
proof -
  have "batchgraph_types_and_shapes (ds\<lparr>pos_size := Some (length bt)\<rparr>) =
          batchgraph_types_and_shapes ds"
    by (rule batchgraph_types_and_shapes_cong) simp_all
  with assms have
    "batchgraph_types_and_shapes (ds\<lparr>pos_size := Some (length bt)\<rparr>) = Inr (bt, bs)"
    by simp
  with assms show ?thesis
    by (simp add: batchgraph_flatten_types_and_shapes_def Let_def)
qed

lemma Dataset_init_batch:
  assumes "batchgraph_types_and_shapes (init_fields query r (Some f) spec etypes) = Inr (bt, bs)"
  shows "Dataset_init sk query r (Some f) spec etypes vals =
           Inr ((init_fields query r (Some f) spec etypes)
                  \<lparr>pos_size := Some (length bt),
                   output_types := (if NEG_DST sk \<in> set (list_alias query) then bt @ bt else bt),
                   output_shapes := (if NEG_DST sk \<in> set (list_alias query) then bs @ bs else bs),
                   ds_values := vals\<rparr>)"
proof -
  have i: "induce_func (init_fields query r (Some f) spec etypes) = Some f"
    and q: "ds_dag (init_fields query r (Some f) spec etypes) = query"
    by (simp_all add: init_fields_def)
  show ?thesis
    unfolding Dataset_init_def make_iterator_def
    by (simp add: i q batchgraph_flatten_types_and_shapes_ok [OF assms])
qed

text \<open>
  Claim C2. For a dataset constructed with an induce function: \<open>pos_size\<close> is the
  length of the one block that \<open>_batchgraph_types_and_shapes\<close> declares, recorded
  before any negative block is appended; when the negative-destination alias is among
  the aliases of the query the declared sequence is that block twice, otherwise once;
  and \<open>get_batchgraph\<close> builds the positive graph from the first \<open>pos_size\<close> values
  and the negative graph from the values after them. The hypotheses are that the masks
  of each node type's decoder have 5, 2 and 3 slots, that the additional spec is a dict
  (each key once), that the positive-source alias is one of the query, and that the
  negative-destination key differs from the two positive keys.
\<close>

theorem pos_size_slicing:
  assumes "list_all (\<lambda>node. mask_slots (get_mask r (graph_get_node_decoder query node)
                        False False)) (dag_node_types query)"
    and "case spec of None \<Rightarrow> True | Some sp \<Rightarrow> distinct (map fst sp)"
    and "get_node query (POS_SRC sk) = Some src"
    and "NEG_DST sk \<noteq> POS_SRC sk" and "NEG_DST sk \<noteq> POS_DST sk"
  shows "\<exists>ds bt bs.
           Dataset_init sk query r (Some f) spec etypes vals = Inr ds \<and>
           batchgraph_types_and_shapes ds = Inr (bt, bs) \<and>
           pos_size ds = Some (length bt) \<and>
           output_types ds = (if NEG_DST sk \<in> set (list_alias query) then bt @ bt else bt) \<and>
           output_shapes ds = (if NEG_DST sk \<in> set (list_alias query) then bs @ bs else bs) \<and>
           (\<exists>g. get_batchgraph sk ds (POS_SRC sk) = Inr (Some g) \<and>
                bg_tensors g = take (length bt) vals) \<and>
           (if NEG_DST sk \<in> set (list_alias query)
            then \<exists>g. get_batchgraph sk ds (NEG_DST sk) = Inr (Some g) \<and>
                     bg_tensors g = drop (length bt) vals
            else get_batchgraph sk ds (NEG_DST sk) = Inr None)"
proof -
  define ds0 where "ds0 = init_fields query r (Some f) spec etypes"
  have ntd: "node_types_declared ds0"
    using assms(1) by (simp add: node_types_declared_def ds0_def init_fields_def)
  have aks: "additional_keys_set ds0"
    using assms(2)
    by (cases spec) (simp_all add: additional_keys_set_def ds0_def init_fields_def)
  from batchgraph_types_and_shapes_ok [OF ntd aks] obtain bt bs where
    b0: "batchgraph_types_and_shapes ds0 = Inr (bt, bs)" by blast
  define ot where "ot = (if NEG_DST sk \<in> set (list_alias query) then bt @ bt else bt)"
  define os where "os = (if NEG_DST sk \<in> set (list_alias query) then bs @ bs else bs)"
  define ds where "ds = ds0\<lparr>pos_size := Some (length bt), output_types := ot,
                            output_shapes := os, ds_values := vals\<rparr>"
  have init: "Dataset_init sk query r (Some f) spec etypes vals = Inr ds"
    unfolding ds_def ot_def os_def ds0_def
    by (rule Dataset_init_batch [OF b0 [unfolded ds0_def]])
  have flds: "ds_dag ds = query" "pos_size ds = Some (length bt)" "ds_values ds = vals"
    "output_types ds = ot" "output_shapes ds = os"
    by (simp_all add: ds_def ds0_def init_fields_def)
  have e: "batchgraph_types_and_shapes ds = batchgraph_types_and_shapes ds0"
    by (rule batchgraph_types_and_shapes_cong) (simp_all add: ds_def)
  have b: "batchgraph_types_and_shapes ds = Inr (bt, bs)"
    unfolding e by (rule b0)
  have pos: "\<exists>g. get_batchgraph sk ds (POS_SRC sk) = Inr (Some g) \<and>
                bg_tensors g = take (length bt) vals"
    by (simp add: get_batchgraph_def flds assms(3) Let_def from_tensors_def)
  have neg: "if NEG_DST sk \<in> set (list_alias query)
            then \<exists>g. get_batchgraph sk ds (NEG_DST sk) = Inr (Some g) \<and>
                     bg_tensors g = drop (length bt) vals
            else get_batchgraph sk ds (NEG_DST sk) = Inr None"
    by (simp add: get_batchgraph_def flds assms(3,4,5) Let_def from_tensors_def)
  have "Dataset_init sk query r (Some f) spec etypes vals = Inr ds \<and>
        batchgraph_types_and_shapes ds = Inr (bt, bs) \<and>
        pos_size ds = Some (length bt) \<and>
        output_types ds = (if NEG_DST sk \<in> set (list_alias query) then bt @ bt else bt) \<and>
        output_shapes ds = (if NEG_DST sk \<in> set (list_alias query) then bs @ bs else bs) \<and>
        (\<exists>g. get_batchgraph sk ds (POS_SRC sk) = Inr (Some g) \<and>
             bg_tensors g = take (length bt) vals) \<and>
        (if NEG_DST sk \<in> set (list_alias query)
         then \<exists>g. get_batchgraph sk ds (NEG_DST sk) = Inr (Some g) \<and>
                  bg_tensors g = drop (length bt) vals
         else get_batchgraph sk ds (NEG_DST sk) = Inr None)"
    using init b flds(2) flds(4) [unfolded ot_def] flds(5) [unfolded os_def] pos neg
    by (intro conjI)
  then show ?thesis by blast
qed

theorem pos_size_slicing_example:
  "\<exists>ds bt bs.
     Dataset_init example_keys example_dag example_rds (Some 0) (Some example_spec) None
       example_values = Inr ds \<and>
     batchgraph_types_and_shapes ds = Inr (bt, bs) \<and>
     pos_size ds = Some (length bt) \<and>
     output_types ds = bt @ bt \<and>
     output_shapes ds = bs @ bs \<and>
     (\<exists>g. get_batchgraph example_keys ds ''s'' = Inr (Some g) \<and>
          bg_tensors g = take (length bt) example_values) \<and>
     (\<exists>g. get_batchgraph example_keys ds ''n'' = Inr (Some g) \<and>
          bg_tensors g = drop (length bt) example_values)"
proof -
  have h1: "list_all (\<lambda>node. mask_slots (get_mask example_rds
               (graph_get_node_decoder example_dag node) False False))
             (dag_node_types example_dag)"
    by (simp add: example_dag_def example_rds_def example_get_mask_def mask_slots_def)
  have h2: "case Some example_spec of None \<Rightarrow> True | Some sp \<Rightarrow> distinct (map fst sp)"
    by (simp add: example_spec_def)
  have h3: "get_node example_dag (POS_SRC example_keys) = Some example_s"
    by (simp add: example_dag_def example_keys_def)
  have h4: "NEG_DST example_keys \<noteq> POS_SRC example_keys"
    and h5: "NEG_DST example_keys \<noteq> POS_DST example_keys"
    by (simp_all add: example_keys_def)
  have n: "NEG_DST example_keys \<in> set (list_alias example_dag)"
    by (simp add: example_keys_def example_dag_def)
  have k: "POS_SRC example_keys = ''s''" "NEG_DST example_keys = ''n''"
    by (simp_all add: example_keys_def)
  from pos_size_slicing [OF h1 h2 h3 h4 h5, of 0 None example_values] show ?thesis
    unfolding k if_P [OF n [unfolded k]] .
qed

section \<open>Properties of the BatchGraph reconstructor\<close>


text \<open>
  Claim C6. On a dataset in batch mode (\<open>pos_size\<close> is set) whose query has the
  positive-source alias: \<open>get_batchgraph\<close> returns the same positive batch object for
  the positive-source and the positive-destination alias; for the negative-destination
  alias it returns the negative batch object, built from the values after the first
  \<open>pos_size\<close>, when that alias is among the aliases of the query, and \<open>None\<close> when it
  is not; for any other alias it raises \<open>ValueError\<close>. The negative-destination key is
  taken to differ from the two positive keys.
\<close>

theorem get_batchgraph_dispatch:
  assumes "get_node (ds_dag ds) (POS_SRC sk) = Some src" and "pos_size ds = Some n"
    and "NEG_DST sk \<noteq> POS_SRC sk" and "NEG_DST sk \<noteq> POS_DST sk"
  shows "(\<exists>g. get_batchgraph sk ds (POS_SRC sk) = Inr (Some g) \<and>
              get_batchgraph sk ds (POS_DST sk) = Inr (Some g) \<and>
              bg_tensors g = take n (ds_values ds)) \<and>
         (if NEG_DST sk \<in> set (list_alias (ds_dag ds))
          then \<exists>g. get_batchgraph sk ds (NEG_DST sk) = Inr (Some g) \<and>
                   bg_tensors g = drop n (ds_values ds)
          else get_batchgraph sk ds (NEG_DST sk) = Inr None) \<and>
         (alias \<noteq> POS_SRC sk \<and> alias \<noteq> POS_DST sk \<and> alias \<noteq> NEG_DST sk \<longrightarrow>
            get_batchgraph sk ds alias = Inl (ValueError BadBatchAlias))"
proof (intro conjI)
  show "\<exists>g. get_batchgraph sk ds (POS_SRC sk) = Inr (Some g) \<and>
            get_batchgraph sk ds (POS_DST sk) = Inr (Some g) \<and>
            bg_tensors g = take n (ds_values ds)"
    by (simp add: get_batchgraph_def assms(1,2) Let_def from_tensors_def)
  show "if NEG_DST sk \<in> set (list_alias (ds_dag ds))
        then \<exists>g. get_batchgraph sk ds (NEG_DST sk) = Inr (Some g) \<and>
                 bg_tensors g = drop n (ds_values ds)
        else get_batchgraph sk ds (NEG_DST sk) = Inr None"
    by (simp add: get_batchgraph_def assms Let_def from_tensors_def)
  show "alias \<noteq> POS_SRC sk \<and> alias \<noteq> POS_DST sk \<and> alias \<noteq> NEG_DST sk \<longrightarrow>
          get_batchgraph sk ds alias = Inl (ValueError BadBatchAlias)"
    by (simp add: get_batchgraph_def assms(1,2) Let_def)
qed

theorem get_batchgraph_dispatch_example:
  "(\<exists>g. get_batchgraph example_keys example_ready ''s'' = Inr (Some g) \<and>
        get_batchgraph example_keys example_ready ''d'' = Inr (Some g) \<and>
        bg_tensors g = take 12 example_values) \<and>
   (\<exists>g. get_batchgraph example_keys example_ready ''n'' = Inr (Some g) \<and>
        bg_tensors g = drop 12 example_values) \<and>
   get_batchgraph example_keys example_ready ''h1'' = Inl (ValueError BadBatchAlias)"
proof -
  have h1: "get_node (ds_dag example_ready) (POS_SRC example_keys) = Some example_s"
    by (simp add: example_ready_def example_batch_def example_dag_def example_keys_def)
  have h2: "pos_size example_ready = Some 12"
    by (simp add: example_ready_def)
  have h3: "NEG_DST example_keys \<noteq> POS_SRC example_keys"
    and h4: "NEG_DST example_keys \<noteq> POS_DST example_keys"
    by (simp_all add: example_keys_def)
  have n: "NEG_DST example_keys \<in> set (list_alias (ds_dag example_ready))"
    by (simp add: example_keys_def example_ready_def example_batch_def example_dag_def)
  have k: "POS_SRC example_keys = ''s''" "POS_DST example_keys = ''d''"
    "NEG_DST example_keys = ''n''" "ds_values example_ready = example_values"
    by (simp_all add: example_keys_def example_ready_def)
  have a: "''h1'' \<noteq> ''s'' \<and> ''h1'' \<noteq> ''d'' \<and> ''h1'' \<noteq> ''n''" by simp
  from get_batchgraph_dispatch [OF h1 h2 h3 h4, of "''h1''"] n a show ?thesis
    unfolding k by simp
qed

subsection \<open>The choice between the two kinds of batch\<close>




section \<open>Properties of the lazy generator adapter\<close>

lemma pulls_raw_finished:
  "pulls (raw_flatten_generator gfv) n (Finished s) = (replicate n StopIteration, Finished s)"
  by (induction n) simp_all

lemma pulls_batch_finished:
  "pulls (batchgraph_flatten_generator gsg bflat hflat ds) n (Finished s) =
     (replicate n StopIteration, Finished s)"
  by (induction n) simp_all

lemma flatten_subgraphs_nonempty:
  assumes "gs \<noteq> []"
  shows "\<exists>fl. flatten_subgraphs bflat hflat ds gs negs = Inr fl"
proof -
  from assms obtain g rest where gs: "gs = g # rest" by (cases gs) auto
  show ?thesis by (cases g) (simp_all add: gs flatten_subgraphs_def)
qed

lemma script_pull_simps:
  "script_pull [] = (OutOfRangeError, [])"
  "script_pull (x # xs) = (x, xs)"
  by (simp_all add: script_pull_def)

lemma pulls_raw_script:
  "pulls (raw_flatten_generator script_pull) (length vs + Suc n)
     (Running (map Returned vs @ OutOfRangeError # later)) =
   (map Yield vs @ replicate (Suc n) StopIteration, Finished later)"
proof (induction vs)
  case Nil
  show ?case
    using pulls_raw_finished [of script_pull n later] by (simp add: script_pull_simps)
next
  case (Cons v vs)
  then show ?case by (simp add: script_pull_simps)
qed

lemma pulls_batch_script:
  assumes "\<forall>b\<in>set bs. fst b \<noteq> []"
  shows "pulls (batchgraph_flatten_generator (\<lambda>induce. script_pull) bflat hflat ds)
           (length bs + Suc n) (Running (map Returned bs @ OutOfRangeError # later)) =
         (map (\<lambda>b. Yield (flattened bflat hflat ds b)) bs @ replicate (Suc n) StopIteration,
          Finished later)"
  using assms
proof (induction bs)
  case Nil
  show ?case
    using pulls_batch_finished [of "\<lambda>induce. script_pull" bflat hflat ds n later]
    by (simp add: script_pull_simps)
next
  case (Cons b bs)
  obtain gs negs where b: "b = (gs, negs)" by (cases b)
  from Cons.prems b have "gs \<noteq> []" by simp
  then obtain fl where fl: "flatten_subgraphs bflat hflat ds gs negs = Inr fl"
    using flatten_subgraphs_nonempty by blast
  from Cons.prems have "\<forall>b\<in>set bs. fst b \<noteq> []" by simp
  from Cons.IH [OF this] show ?case
    by (simp add: script_pull_simps b fl flattened_def)
qed

text \<open>
  Claim C5. For \<open>_raw_flatten_generator\<close> and \<open>_batchgraph_flatten_generator\<close>: a
  pull of the source that succeeds makes the \<open>next()\<close> that asked for it yield exactly
  one tuple (in batch mode the pull must hand back at least one subgraph, whose kind
  the generator inspects); on the first pull that raises \<open>OutOfRangeError\<close> that
  \<open>next()\<close> and every later one end in \<open>StopIteration\<close>, never in an error, and the
  source is left as that pull left it: it is not asked again. For a source that
  succeeds on its first pulls and then raises, the consumer gets one tuple for each of
  the successful pulls, in order, and \<open>StopIteration\<close> from then on, whatever the
  source would have returned afterwards.
\<close>

theorem generator_exhaustion:
  "(gfv s = (Returned vals, s') \<longrightarrow>
      raw_flatten_generator gfv (Running s) = (Yield vals, Running s')) \<and>
   (gfv s = (OutOfRangeError, s') \<longrightarrow>
      pulls (raw_flatten_generator gfv) (Suc n) (Running s) =
        (replicate (Suc n) StopIteration, Finished s')) \<and>
   pulls (raw_flatten_generator script_pull) (length vs + Suc n)
       (Running (map Returned vs @ OutOfRangeError # later)) =
     (map Yield vs @ replicate (Suc n) StopIteration, Finished later) \<and>
   (gsg (induce_func ds) t = (Returned (gs, negs), t') \<and> gs \<noteq> [] \<longrightarrow>
      (\<exists>fl. flatten_subgraphs bflat hflat ds gs negs = Inr fl \<and>
            batchgraph_flatten_generator gsg bflat hflat ds (Running t) =
              (Yield fl, Running t'))) \<and>
   (gsg (induce_func ds) t = (OutOfRangeError, t') \<longrightarrow>
      pulls (batchgraph_flatten_generator gsg bflat hflat ds) (Suc n) (Running t) =
        (replicate (Suc n) StopIteration, Finished t')) \<and>
   ((\<forall>b\<in>set bs. fst b \<noteq> []) \<longrightarrow>
      pulls (batchgraph_flatten_generator (\<lambda>induce. script_pull) bflat hflat ds)
          (length bs + Suc n) (Running (map Returned bs @ OutOfRangeError # rest)) =
        (map (\<lambda>b. Yield (flattened bflat hflat ds b)) bs @ replicate (Suc n) StopIteration,
         Finished rest))"
proof (intro conjI impI)
  assume "gfv s = (Returned vals, s')"
  then show "raw_flatten_generator gfv (Running s) = (Yield vals, Running s')"
    by simp
next
  assume "gfv s = (OutOfRangeError, s')"
  then show "pulls (raw_flatten_generator gfv) (Suc n) (Running s) =
        (replicate (Suc n) StopIteration, Finished s')"
    by (simp add: pulls_raw_finished)
next
  show "pulls (raw_flatten_generator script_pull) (length vs + Suc n)
       (Running (map Returned vs @ OutOfRangeError # later)) =
     (map Yield vs @ replicate (Suc n) StopIteration, Finished later)"
    by (rule pulls_raw_script)
next
  assume a: "gsg (induce_func ds) t = (Returned (gs, negs), t') \<and> gs \<noteq> []"
  then obtain fl where fl: "flatten_subgraphs bflat hflat ds gs negs = Inr fl"
    using flatten_subgraphs_nonempty by blast
  with a show "\<exists>fl. flatten_subgraphs bflat hflat ds gs negs = Inr fl \<and>
            batchgraph_flatten_generator gsg bflat hflat ds (Running t) =
              (Yield fl, Running t')"
    by simp
next
  assume "gsg (induce_func ds) t = (OutOfRangeError, t')"
  then show "pulls (batchgraph_flatten_generator gsg bflat hflat ds) (Suc n) (Running t) =
        (replicate (Suc n) StopIteration, Finished t')"
    by (simp add: pulls_batch_finished)
next
  assume "\<forall>b\<in>set bs. fst b \<noteq> []"
  then show "pulls (batchgraph_flatten_generator (\<lambda>induce. script_pull) bflat hflat ds)
          (length bs + Suc n) (Running (map Returned bs @ OutOfRangeError # rest)) =
        (map (\<lambda>b. Yield (flattened bflat hflat ds b)) bs @ replicate (Suc n) StopIteration,
         Finished rest)"
    by (rule pulls_batch_script)
qed

theorem generator_exhaustion_example:
  "raw_flatten_generator script_pull (Running [Returned [Tensor 0], OutOfRangeError]) =
     (Yield [Tensor 0], Running [OutOfRangeError]) \<and>
   pulls (raw_flatten_generator script_pull) 2
       (Running [OutOfRangeError, Returned [Tensor 1]]) =
     ([StopIteration, StopIteration], Finished [Returned [Tensor 1]]) \<and>
   pulls (raw_flatten_generator script_pull) 4
       (Running [Returned [Tensor 0], Returned [Tensor 1], OutOfRangeError,
                 Returned [Tensor 2]]) =
     ([Yield [Tensor 0], Yield [Tensor 1], StopIteration, StopIteration],
      Finished [Returned [Tensor 2]]) \<and>
   batchgraph_flatten_generator (\<lambda>induce. script_pull) example_bflat example_hflat
       example_batch (Running [Returned ([SubGraph 1], Some [SubGraph 2]), OutOfRangeError]) =
     (Yield [Tensor 1, Tensor 2], Running [OutOfRangeError]) \<and>
   pulls (batchgraph_flatten_generator (\<lambda>induce. script_pull) example_bflat example_hflat
            example_batch) 2
       (Running [OutOfRangeError, Returned ([SubGraph 3], None)]) =
     ([StopIteration, StopIteration], Finished [Returned ([SubGraph 3], None)]) \<and>
   pulls (batchgraph_flatten_generator (\<lambda>induce. script_pull) example_bflat example_hflat
            example_batch) 3
       (Running [Returned ([HeteroSubGraph 1], None), OutOfRangeError,
                 Returned ([SubGraph 3], None)]) =
     ([Yield [Tensor 1], StopIteration, StopIteration],
      Finished [Returned ([SubGraph 3], None)])"
proof -
  note a = generator_exhaustion
    [where gfv = script_pull and s = "[Returned [Tensor 0], OutOfRangeError]"
       and vals = "[Tensor 0]" and s' = "[OutOfRangeError]" and n = 1
       and vs = "[[Tensor 0], [Tensor 1]]" and later = "[Returned [Tensor 2]]"
       and gsg = "\<lambda>induce. script_pull" and ds = example_batch
       and t = "[Returned ([SubGraph 1], Some [SubGraph 2]), OutOfRangeError]"
       and gs = "[SubGraph 1]" and negs = "Some [SubGraph 2]" and t' = "[OutOfRangeError]"
       and bflat = example_bflat and hflat = example_hflat
       and bs = "[([HeteroSubGraph 1], None)]" and rest = "[Returned ([SubGraph 3], None)]"]
  note b = generator_exhaustion
    [where gfv = script_pull and s = "[OutOfRangeError, Returned [Tensor 1]]"
       and s' = "[Returned [Tensor 1]]" and n = 1
       and gsg = "\<lambda>induce. script_pull" and ds = example_batch
       and t = "[OutOfRangeError, Returned ([SubGraph 3], None)]"
       and t' = "[Returned ([SubGraph 3], None)]"
       and bflat = example_bflat and hflat = example_hflat]
  from a b show ?thesis
    by (simp add: script_pull_simps eval_nat_numeral flatten_subgraphs_def flattened_def
        example_bflat_def example_hflat_def)
qed

section \<open>Properties of the EgoGraph reconstructor\<close>

text \<open>
  Claim C10. \<open>get_egograph\<close> with the empty list as \<open>neighbors\<close> does what it does
  with no neighbors given: the empty list fails the test \<open>if neighbors:\<close>, so the
  automatic branch runs. In the worked query the call on \<open>s\<close> with the empty list
  follows the three hops after \<open>s\<close> (it is not an EgoGraph with no hop), and the call
  on \<open>k\<close>, which has two positive downstreams, raises the \<open>ValueError\<close> of the
  automatic branch.
\<close>

theorem empty_neighbors_automatic:
  "get_egograph ds source (PyList []) = get_egograph ds source PyNone \<and>
   egograph_hops example_walk ''s'' (PyList []) = Inr ([''h1'', ''h2''], [''e''], [3, 2]) \<and>
   get_egograph example_walk ''k'' (PyList []) =
     Inl (ValueError (MultipleDownstreams ''k'' ''k''))"
proof (intro conjI)
  show "get_egograph ds source (PyList []) = get_egograph ds source PyNone"
    by (cases "get_node (ds_dag ds) source") (simp_all add: get_egograph_def egograph_hops_def)
  show "egograph_hops example_walk ''s'' (PyList []) = Inr ([''h1'', ''h2''], [''e''], [3, 2])"
    by (simp add: egograph_hops_def example_walk_def example_raw_def example_dag_def
        example_s_def example_h1_def example_e_def example_h2_def shape_last_def)
  show "get_egograph example_walk ''k'' (PyList []) =
          Inl (ValueError (MultipleDownstreams ''k'' ''k''))"
    by (simp add: get_egograph_def egograph_hops_def example_walk_def example_raw_def
        example_dag_def example_k_def example_h1_def example_n_def)
qed

subsection \<open>Explicit neighbors\<close>

lemma hop_pairs_Cons:
  "hop_pairs pre (c # cs) = (pre, c) # hop_pairs c cs"
  by (simp add: hop_pairs_def)

lemma explicit_loop_eq:
  assumes "map (get_node g) nbrs = map Some nodes"
    and "\<forall>c\<in>set nodes. dn_shape c \<noteq> []"
  shows "explicit_loop g pre nbrs (nn, ne, nums) =
     (case find invalid_hop (hop_pairs pre nodes) of
        Some h \<Rightarrow> Inl (ValueError (NotDownstream (get_alias (snd h)) (get_alias (fst h))))
      | None \<Rightarrow>
          Inr (nn @ map get_alias (node_hops pre nodes),
               ne @ map get_alias (edge_hops pre nodes),
               nums @ map (\<lambda>c. last (dn_shape c)) (node_hops pre nodes)))"
  using assms
proof (induction nbrs arbitrary: pre nodes nn ne nums)
  case Nil
  then show ?case
    by (simp add: hop_pairs_def node_hops_def edge_hops_def)
next
  case (Cons nbr rest)
  from Cons.prems(1) obtain c cs where nodes: "nodes = c # cs"
    and c: "get_node g nbr = Some c" and cs: "map (get_node g) rest = map Some cs"
    by (cases nodes) auto
  from Cons.prems(2) nodes have sh: "dn_shape c \<noteq> []" and shs: "\<forall>c\<in>set cs. dn_shape c \<noteq> []"
    by simp_all
  have sl: "shape_last (dn_shape c) = Inr (last (dn_shape c))"
    using sh by (cases "dn_shape c") (simp_all add: shape_last_def)
  note IH = Cons.IH [OF cs shs]
  show ?case
  proof (cases "invalid_hop (pre, c)")
    case True
    then show ?thesis
      by (simp add: nodes c hop_pairs_Cons invalid_hop_def)
  next
    case False
    then have ok: "c \<in> set (pos_downstreams pre @ neg_downstreams pre)"
      by (simp add: invalid_hop_def)
    show ?thesis
    proof (cases "is_traverse_edge pre")
      case True
      with False ok show ?thesis
        by (simp add: nodes c hop_pairs_Cons IH node_hops_def edge_hops_def
            split: option.splits)
    next
      case edge: False
      with False ok show ?thesis
        by (simp add: nodes c hop_pairs_Cons IH sl node_hops_def edge_hops_def
            split: option.splits)
    qed
  qed
qed

text \<open>
  Claim C8. With the source alias one of the query: a \<open>neighbors\<close> argument that passes
  \<open>if neighbors:\<close> and is not a list makes \<open>get_egograph\<close> raise \<open>ValueError\<close>. For
  a non-empty list of aliases of the query whose nodes have a non-empty shape: if some
  node is not among the positive or negative downstreams of its predecessor, the call
  raises \<open>ValueError\<close>, naming the first such node and its predecessor; otherwise
  every hop whose predecessor is an edge traversal is recorded as an edge, every other
  hop as a node together with the last entry of its shape, and the result is the
  EgoGraph built from these three lists.
\<close>

theorem explicit_neighbors:
  assumes "get_node (ds_dag ds) source = Some src"
  shows "(truthy v \<and> \<not> is_list v \<longrightarrow>
            get_egograph ds source v = Inl (ValueError NeighborsNotList)) \<and>
         (nbrs \<noteq> [] \<and> map (get_node (ds_dag ds)) nbrs = map Some nodes \<and>
          (\<forall>c\<in>set nodes. dn_shape c \<noteq> []) \<longrightarrow>
            (case find invalid_hop (hop_pairs src nodes) of
               Some h \<Rightarrow>
                 get_egograph ds source (PyList nbrs) =
                   Inl (ValueError (NotDownstream (get_alias (snd h)) (get_alias (fst h))))
             | None \<Rightarrow>
                 egograph_hops ds source (PyList nbrs) = Inr (classified_hops src nodes) \<and>
                 get_egograph ds source (PyList nbrs) =
                   make_egograph ds source (classified_hops src nodes)))"
proof (intro conjI impI)
  assume "truthy v \<and> \<not> is_list v"
  then show "get_egograph ds source v = Inl (ValueError NeighborsNotList)"
    by (cases v) (simp_all add: get_egograph_def egograph_hops_def assms)
next
  assume a: "nbrs \<noteq> [] \<and> map (get_node (ds_dag ds)) nbrs = map Some nodes \<and>
          (\<forall>c\<in>set nodes. dn_shape c \<noteq> [])"
  then have h: "egograph_hops ds source (PyList nbrs) =
      explicit_loop (ds_dag ds) src nbrs ([], [], [])"
    by (simp add: egograph_hops_def assms)
  from a have l: "explicit_loop (ds_dag ds) src nbrs ([], [], []) =
     (case find invalid_hop (hop_pairs src nodes) of
        Some h \<Rightarrow> Inl (ValueError (NotDownstream (get_alias (snd h)) (get_alias (fst h))))
      | None \<Rightarrow> Inr (classified_hops src nodes))"
    using explicit_loop_eq [of "ds_dag ds" nbrs nodes src "[]" "[]" "[]"]
    by (simp add: classified_hops_def split: option.splits)
  show "case find invalid_hop (hop_pairs src nodes) of
               Some h \<Rightarrow>
                 get_egograph ds source (PyList nbrs) =
                   Inl (ValueError (NotDownstream (get_alias (snd h)) (get_alias (fst h))))
             | None \<Rightarrow>
                 egograph_hops ds source (PyList nbrs) = Inr (classified_hops src nodes) \<and>
                 get_egograph ds source (PyList nbrs) =
                   make_egograph ds source (classified_hops src nodes)"
    by (cases "find invalid_hop (hop_pairs src nodes)")
      (simp_all add: get_egograph_def h l)
qed

theorem explicit_neighbors_example:
  "get_egograph example_walk ''s'' (PyTuple [''h1'']) = Inl (ValueError NeighborsNotList) \<and>
   egograph_hops example_walk ''s'' (PyList [''h1'', ''e'', ''h2'']) =
     Inr ([''h1'', ''e''], [''h2''], [3, 3]) \<and>
   get_egograph example_walk ''s'' (PyList [''h1'', ''e'', ''h2'']) =
     make_egograph example_walk ''s'' ([''h1'', ''e''], [''h2''], [3, 3]) \<and>
   get_egograph example_walk ''s'' (PyList [''h1'', ''h2'']) =
     Inl (ValueError (NotDownstream ''h2'' ''h1''))"
proof -
  have s: "get_node (ds_dag example_walk) ''s'' = Some example_s"
    by (simp add: example_walk_def example_raw_def example_dag_def)
  have r1: "map (get_node (ds_dag example_walk)) [''h1'', ''e'', ''h2''] =
              map Some [example_h1, example_e, example_h2]"
    by (simp add: example_walk_def example_raw_def example_dag_def)
  have r2: "map (get_node (ds_dag example_walk)) [''h1'', ''h2''] =
              map Some [example_h1, example_h2]"
    by (simp add: example_walk_def example_raw_def example_dag_def)
  have sh: "\<forall>c\<in>set [example_h1, example_e, example_h2]. dn_shape c \<noteq> []"
    "\<forall>c\<in>set [example_h1, example_h2]. dn_shape c \<noteq> []"
    by (simp_all add: example_h1_def example_e_def example_h2_def)
  have f1: "find invalid_hop (hop_pairs example_s [example_h1, example_e, example_h2]) = None"
    by (simp add: hop_pairs_def invalid_hop_def example_s_def example_h1_def example_e_def
        example_h2_def)
  have c1: "classified_hops example_s [example_h1, example_e, example_h2] =
              ([''h1'', ''e''], [''h2''], [3, 3])"
    by (simp add: classified_hops_def node_hops_def edge_hops_def hop_pairs_def
        example_s_def example_h1_def example_e_def example_h2_def)
  have f2: "find invalid_hop (hop_pairs example_s [example_h1, example_h2]) =
              Some (example_h1, example_h2)"
    by (simp add: hop_pairs_def invalid_hop_def example_s_def example_h1_def example_e_def
        example_h2_def)
  have al: "get_alias example_h1 = ''h1''" "get_alias example_h2 = ''h2''"
    by (simp_all add: example_h1_def example_h2_def)
  note a = explicit_neighbors [OF s, where v = "PyTuple [''h1'']"
      and nbrs = "[''h1'', ''e'', ''h2'']" and nodes = "[example_h1, example_e, example_h2]"]
  note b = explicit_neighbors [OF s, where v = "PyTuple [''h1'']"
      and nbrs = "[''h1'', ''h2'']" and nodes = "[example_h1, example_h2]"]
  from a have "get_egograph example_walk ''s'' (PyTuple [''h1'']) =
      Inl (ValueError NeighborsNotList)"
    by simp
  moreover from a r1 sh(1) have
    "egograph_hops example_walk ''s'' (PyList [''h1'', ''e'', ''h2'']) =
       Inr ([''h1'', ''e''], [''h2''], [3, 3]) \<and>
     get_egograph example_walk ''s'' (PyList [''h1'', ''e'', ''h2'']) =
       make_egograph example_walk ''s'' ([''h1'', ''e''], [''h2''], [3, 3])"
    unfolding f1 c1 by simp
  moreover from b r2 sh(2) have
    "get_egograph example_walk ''s'' (PyList [''h1'', ''h2'']) =
       Inl (ValueError (NotDownstream ''h2'' ''h1''))"
    unfolding f2 by (simp add: al)
  ultimately show ?thesis by simp
qed

subsection \<open>Automatic neighbors\<close>

lemma shape_last_ok:
  "sh \<noteq> [] \<Longrightarrow> shape_last sh = Inr (last sh)"
  by (cases sh) (simp_all add: shape_last_def)

lemma auto_loop_eq:
  assumes "\<forall>c\<in>set (pos_chain recepts). is_traverse_edge c \<or> dn_shape c \<noteq> []"
  shows "auto_loop pa source recepts (nn, ne, nums) =
     (if chain_ambiguous recepts then Inl (ValueError (MultipleDownstreams pa source))
      else Inr (nn @ map get_alias (filter (\<lambda>c. \<not> is_traverse_edge c) (pos_chain recepts)),
                ne @ map get_alias (filter is_traverse_edge (pos_chain recepts)),
                nums @ map (\<lambda>c. last (dn_shape c))
                         (filter (\<lambda>c. \<not> is_traverse_edge c) (pos_chain recepts))))"
  using assms
proof (induction recepts arbitrary: nn ne nums rule: pos_chain.induct)
  case 1
  show ?case by simp
next
  case (2 a t d e sp sh pos neg others)
  show ?case
  proof (cases "others \<noteq> []")
    case True
    then show ?thesis by (cases others) simp_all
  next
    case False
    then have o: "others = []" by simp
    from "2.prems" o have here: "e \<or> sh \<noteq> []"
      and rest: "\<forall>c\<in>set (pos_chain pos). is_traverse_edge c \<or> dn_shape c \<noteq> []"
      by simp_all
    note IH = "2.IH" [OF False rest]
    show ?thesis
    proof (cases e)
      case True
      then show ?thesis by (simp add: o IH)
    next
      case False
      with here have "sh \<noteq> []" by simp
      then have "shape_last sh = Inr (last sh)" by (rule shape_last_ok)
      with False show ?thesis by (simp add: o IH)
    qed
  qed
qed

lemma data_of_ok:
  "list_all (\<lambda>a. d a \<noteq> None) as \<Longrightarrow> \<exists>xs. data_of d as = Inr xs \<and> length xs = length as"
  by (induction as) auto

lemma schema_of_ok:
  "list_all (\<lambda>a. get_node g a \<noteq> None) as \<Longrightarrow> \<exists>xs. schema_of g as = Inr xs"
  by (induction as) auto

lemma make_egograph_ok:
  assumes "resolvable ds (source # nn @ ne)"
  shows "\<exists>eg. make_egograph ds source (nn, ne, nums) = Inr eg \<and>
           length (eg_nbr_nodes eg) = length nn \<and> length (eg_nbr_edges eg) = length ne \<and>
           eg_nbr_nums eg = nums"
proof -
  let ?d = "build_data_dict (rds ds) (ds_values ds)"
  from assms obtain x where x: "?d source = Some x"
    by (auto simp: resolvable_def)
  from assms have "list_all (\<lambda>a. ?d a \<noteq> None) nn" "list_all (\<lambda>a. ?d a \<noteq> None) ne"
    by (auto simp: resolvable_def list_all_iff)
  then obtain xs ys where xs: "data_of ?d nn = Inr xs" "length xs = length nn"
    and ys: "data_of ?d ne = Inr ys" "length ys = length ne"
    using data_of_ok by blast
  from assms have "list_all (\<lambda>a. get_node (ds_dag ds) a \<noteq> None) (source # nn)"
    "list_all (\<lambda>a. get_node (ds_dag ds) a \<noteq> None) ne"
    by (auto simp: resolvable_def list_all_iff)
  then obtain ns es where ns: "schema_of (ds_dag ds) (source # nn) = Inr ns"
    and es: "schema_of (ds_dag ds) ne = Inr es"
    using schema_of_ok by blast
  show ?thesis
    by (simp add: make_egograph_def Let_def x xs ys ns es del: schema_of.simps)
qed

text \<open>
  Claim C9. With no neighbors given, \<open>get_egograph\<close> follows the chain of positive
  downstreams from the centric node. If a node on the chain, the centric node
  included, has more than one positive downstream, the call raises \<open>ValueError\<close>. If
  every node on the chain has at most one, the call returns an EgoGraph whose hops,
  node-hops and edge-hops together, are as many as the chain is long; a node that is an
  edge traversal is recorded as an edge, any other as a node with the last entry of its
  shape. The hypotheses are that the centric alias is one of the query, that the nodes
  on the chain that are not edge traversals have a non-empty shape, and, for the call to
  return, that the aliases on the chain are in the query and in the data dict.
\<close>

theorem automatic_neighbors:
  assumes "get_node (ds_dag ds) source = Some src"
    and "\<forall>c\<in>set (pos_chain (pos_downstreams src)). is_traverse_edge c \<or> dn_shape c \<noteq> []"
  shows "(chain_ambiguous (pos_downstreams src) \<longrightarrow>
            get_egograph ds source PyNone =
              Inl (ValueError (MultipleDownstreams (get_alias src) source))) \<and>
         (\<not> chain_ambiguous (pos_downstreams src) \<and>
          resolvable ds (source # map get_alias (pos_chain (pos_downstreams src))) \<longrightarrow>
            egograph_hops ds source PyNone = Inr (automatic_hops (pos_downstreams src)) \<and>
            (\<exists>eg. get_egograph ds source PyNone = Inr eg \<and>
                  length (eg_nbr_nodes eg) + length (eg_nbr_edges eg) =
                    length (pos_chain (pos_downstreams src)) \<and>
                  eg_nbr_nums eg = snd (snd (automatic_hops (pos_downstreams src)))))"
proof -
  let ?r = "pos_downstreams src"
  have h: "egograph_hops ds source PyNone =
      (if chain_ambiguous ?r
       then Inl (ValueError (MultipleDownstreams (get_alias src) source))
       else Inr (automatic_hops ?r))"
    using auto_loop_eq [OF assms(2), of "get_alias src" source "[]" "[]" "[]"]
    by (simp add: egograph_hops_def assms(1) automatic_hops_def)
  show ?thesis
  proof (intro conjI impI)
    assume "chain_ambiguous ?r"
    with h show "get_egograph ds source PyNone =
        Inl (ValueError (MultipleDownstreams (get_alias src) source))"
      by (simp add: get_egograph_def)
  next
    assume a: "\<not> chain_ambiguous ?r \<and> resolvable ds (source # map get_alias (pos_chain ?r))"
    with h show "egograph_hops ds source PyNone = Inr (automatic_hops ?r)" by simp
  next
    assume a: "\<not> chain_ambiguous ?r \<and> resolvable ds (source # map get_alias (pos_chain ?r))"
    with h have hops: "egograph_hops ds source PyNone = Inr (automatic_hops ?r)" by simp
    obtain nn ne nums where ah: "automatic_hops ?r = (nn, ne, nums)"
      by (cases "automatic_hops ?r") auto
    then have nn: "nn = map get_alias (filter (\<lambda>c. \<not> is_traverse_edge c) (pos_chain ?r))"
      and ne: "ne = map get_alias (filter is_traverse_edge (pos_chain ?r))"
      by (simp_all add: automatic_hops_def)
    from a have "resolvable ds (source # nn @ ne)"
      by (auto simp: resolvable_def list_all_iff nn ne)
    from make_egograph_ok [OF this, of nums] obtain eg where
      eg: "make_egograph ds source (nn, ne, nums) = Inr eg"
      and l1: "length (eg_nbr_nodes eg) = length nn"
      and l2: "length (eg_nbr_edges eg) = length ne"
      and l3: "eg_nbr_nums eg = nums"
      by blast
    have "length nn + length ne = length (pos_chain ?r)"
      unfolding nn ne length_map
      using sum_length_filter_compl [of is_traverse_edge "pos_chain ?r"] by simp
    with eg l1 l2 l3 hops ah
    show "\<exists>eg. get_egograph ds source PyNone = Inr eg \<and>
                  length (eg_nbr_nodes eg) + length (eg_nbr_edges eg) =
                    length (pos_chain ?r) \<and>
                  eg_nbr_nums eg = snd (snd (automatic_hops ?r))"
      by (simp add: get_egograph_def)
  qed
qed

theorem automatic_neighbors_example:
  "get_egograph example_walk ''k'' PyNone =
     Inl (ValueError (MultipleDownstreams ''k'' ''k'')) \<and>
   egograph_hops example_walk ''s'' PyNone = Inr ([''h1'', ''h2''], [''e''], [3, 2]) \<and>
   (\<exists>eg. get_egograph example_walk ''s'' PyNone = Inr eg \<and>
         length (eg_nbr_nodes eg) + length (eg_nbr_edges eg) = 3 \<and>
         eg_nbr_nums eg = [3, 2])"
proof -
  have s: "get_node (ds_dag example_walk) ''s'' = Some example_s"
    and k: "get_node (ds_dag example_walk) ''k'' = Some example_k"
    by (simp_all add: example_walk_def example_raw_def example_dag_def)
  have cs: "pos_chain (pos_downstreams example_s) = [example_h1, example_e, example_h2]"
    by (simp add: example_s_def example_h1_def example_e_def example_h2_def)
  have ck: "pos_chain (pos_downstreams example_k) = []"
    by (simp add: example_k_def example_h1_def example_n_def)
  have shs: "\<forall>c\<in>set (pos_chain (pos_downstreams example_s)).
               is_traverse_edge c \<or> dn_shape c \<noteq> []"
    unfolding cs by (simp add: example_h1_def example_e_def example_h2_def)
  have shk: "\<forall>c\<in>set (pos_chain (pos_downstreams example_k)).
               is_traverse_edge c \<or> dn_shape c \<noteq> []"
    unfolding ck by simp
  have ak: "chain_ambiguous (pos_downstreams example_k)"
    by (simp add: example_k_def example_h1_def example_n_def)
  have as: "\<not> chain_ambiguous (pos_downstreams example_s)"
    by (simp add: example_s_def example_h1_def example_e_def example_h2_def)
  have rs: "resolvable example_walk
              (''s'' # map get_alias (pos_chain (pos_downstreams example_s)))"
    unfolding cs
    by (simp add: resolvable_def example_walk_def example_raw_def example_dag_def
        example_rds_def example_h1_def example_e_def example_h2_def)
  have hs: "automatic_hops (pos_downstreams example_s) = ([''h1'', ''h2''], [''e''], [3, 2])"
    unfolding automatic_hops_def cs
    by (simp add: example_h1_def example_e_def example_h2_def)
  have al: "get_alias example_k = ''k''"
    by (simp add: example_k_def)
  from automatic_neighbors [OF k shk] ak have
    "get_egograph example_walk ''k'' PyNone =
       Inl (ValueError (MultipleDownstreams ''k'' ''k''))"
    by (simp add: al)
  moreover from automatic_neighbors [OF s shs] as rs have
    "egograph_hops example_walk ''s'' PyNone = Inr ([''h1'', ''h2''], [''e''], [3, 2]) \<and>
     (\<exists>eg. get_egograph example_walk ''s'' PyNone = Inr eg \<and>
           length (eg_nbr_nodes eg) + length (eg_nbr_edges eg) = 3 \<and>
           eg_nbr_nums eg = [3, 2])"
    unfolding hs cs by (simp add: eval_nat_numeral)
  ultimately show ?thesis by simp
qed

section \<open>Further properties\<close>

text \<open>
  The heterogeneous branch of \<open>_batchgraph_flatten_generator\<close> calls
  \<open>HeteroBatchGraph.from_graphs\<close> and \<open>flatten\<close> without the additional keys, so the
  tuple it yields is the same with and without an additional spec, whereas the declared
  block is longer by one field for each additional key.
\<close>

theorem hetero_tuple_ignores_additional_spec:
  assumes "node_types_declared ds" and "distinct (map fst spec)"
  shows "\<exists>tys shs tys' shs'.
     batchgraph_types_and_shapes (ds\<lparr>ds_additional_spec := None, additional_keys := []\<rparr>) =
       Inr (tys, shs) \<and>
     batchgraph_types_and_shapes
         (ds\<lparr>ds_additional_spec := Some spec, additional_keys := map fst spec\<rparr>) =
       Inr (tys', shs') \<and>
     length tys' = length tys + length spec \<and>
     flatten_subgraphs bflat hflat
         (ds\<lparr>ds_additional_spec := Some spec, additional_keys := map fst spec\<rparr>)
         (HeteroSubGraph k # gs) negs =
       flatten_subgraphs bflat hflat (ds\<lparr>ds_additional_spec := None, additional_keys := []\<rparr>)
         (HeteroSubGraph k # gs) negs"
proof -
  define d0 where "d0 = ds\<lparr>ds_additional_spec := None, additional_keys := []\<rparr>"
  define d1 where "d1 = ds\<lparr>ds_additional_spec := Some spec, additional_keys := map fst spec\<rparr>"
  have n0: "node_types_declared d0" and n1: "node_types_declared d1"
    using assms(1) by (simp_all add: node_types_declared_def d0_def d1_def)
  have k0: "additional_keys_set d0" and k1: "additional_keys_set d1"
    using assms(2) by (simp_all add: additional_keys_set_def d0_def d1_def)
  from batchgraph_types_and_shapes_ok [OF n0 k0] obtain tys shs where
    b0: "batchgraph_types_and_shapes d0 = Inr (tys, shs)"
    and l0: "length tys = length shs" and z0: "zip tys shs = batch_block d0"
    by blast
  from batchgraph_types_and_shapes_ok [OF n1 k1] obtain tys' shs' where
    b1: "batchgraph_types_and_shapes d1 = Inr (tys', shs')"
    and l1: "length tys' = length shs'" and z1: "zip tys' shs' = batch_block d1"
    by blast
  have "batch_block d1 = batch_block d0 @ map snd spec"
    by (simp add: batch_block_def additional_fields_def node_type_fields_def [abs_def]
        d0_def d1_def)
  then have "length (zip tys' shs') = length (zip tys shs) + length spec"
    by (simp add: z0 z1)
  with l0 l1 have len: "length tys' = length tys + length spec" by simp
  have f: "flatten_subgraphs bflat hflat d1 (HeteroSubGraph k # gs) negs =
             flatten_subgraphs bflat hflat d0 (HeteroSubGraph k # gs) negs"
    by (cases negs) (simp_all add: flatten_subgraphs_def d0_def d1_def)
  from b0 b1 len f show ?thesis
    unfolding d0_def d1_def by blast
qed

theorem hetero_tuple_ignores_additional_spec_example:
  "\<exists>tys shs tys' shs'.
     batchgraph_types_and_shapes
         (example_batch\<lparr>ds_additional_spec := None, additional_keys := []\<rparr>) =
       Inr (tys, shs) \<and>
     batchgraph_types_and_shapes
         (example_batch\<lparr>ds_additional_spec := Some example_spec,
                        additional_keys := map fst example_spec\<rparr>) =
       Inr (tys', shs') \<and>
     length tys' = length tys + length example_spec \<and>
     flatten_subgraphs example_bflat example_hflat
         (example_batch\<lparr>ds_additional_spec := Some example_spec,
                        additional_keys := map fst example_spec\<rparr>)
         [HeteroSubGraph 1] None =
       flatten_subgraphs example_bflat example_hflat
         (example_batch\<lparr>ds_additional_spec := None, additional_keys := []\<rparr>)
         [HeteroSubGraph 1] None"
proof -
  have h1: "node_types_declared example_batch"
    by (simp add: node_types_declared_def example_batch_def example_dag_def example_rds_def
        example_get_mask_def mask_slots_def)
  have h2: "distinct (map fst example_spec)"
    by (simp add: example_spec_def)
  show ?thesis
    by (rule hetero_tuple_ignores_additional_spec [OF h1 h2])
qed

end
